theory Spec2Isabelle
  imports Complex_Main
begin

section \<open>Python string primitives used by SimpleCDRipperGUI.py\<close>

text \<open>
  A Python \<open>str\<close> is modelled as a \<^typ>\<open>string\<close>, one \<^typ>\<open>char\<close> per code point, so
  the model covers the code points below 256. The character classes below are the ones
  CPython's \<open>str.isspace\<close>, \<open>str.splitlines\<close>, \<open>str.isalnum\<close> and \<open>str.lower\<close> have
  on that range. CPython's optional guard on the length of integer/string conversions
  (\<open>sys.set_int_max_str_digits\<close>) is a setting of the interpreter and not of this program;
  it is not part of the model.
\<close>

definition code_point :: "char \<Rightarrow> nat" where
  "code_point c = of_char c"

definition py_isspace :: "char \<Rightarrow> bool" where
  "py_isspace c = (let n = code_point c in (9 \<le> n \<and> n \<le> 13) \<or> (28 \<le> n \<and> n \<le> 32) \<or> n = 133 \<or> n = 160)"

definition py_islinebreak :: "char \<Rightarrow> bool" where
  "py_islinebreak c = (let n = code_point c in (10 \<le> n \<and> n \<le> 13) \<or> (28 \<le> n \<and> n \<le> 30) \<or> n = 133)"

definition py_isdigit :: "char \<Rightarrow> bool" where
  "py_isdigit c = (let n = code_point c in 48 \<le> n \<and> n \<le> 57)"

definition py_isalnum :: "char \<Rightarrow> bool" where
  "py_isalnum c = (let n = code_point c in
     (48 \<le> n \<and> n \<le> 57) \<or> (65 \<le> n \<and> n \<le> 90) \<or> (97 \<le> n \<and> n \<le> 122) \<or>
     n = 170 \<or> n = 178 \<or> n = 179 \<or> n = 181 \<or> n = 185 \<or> n = 186 \<or>
     (188 \<le> n \<and> n \<le> 190) \<or> (192 \<le> n \<and> n \<le> 214) \<or> (216 \<le> n \<and> n \<le> 246) \<or>
     (248 \<le> n \<and> n \<le> 255))"

text \<open>
  \<open>str.lower\<close> moves the upper-case code points 65 to 90, 192 to 214 and 216 to 222 up by
  32; bit 5 is clear on all of them, so adding 32 sets that bit.
\<close>

definition py_lower_char :: "char \<Rightarrow> char" where
  "py_lower_char c = (let n = code_point c in
     if (65 \<le> n \<and> n \<le> 90) \<or> (192 \<le> n \<and> n \<le> 214) \<or> (216 \<le> n \<and> n \<le> 222)
     then (case c of Char b0 b1 b2 b3 b4 b5 b6 b7 \<Rightarrow> Char b0 b1 b2 b3 b4 True b6 b7)
     else c)"

definition py_lower :: "string \<Rightarrow> string" where
  "py_lower s = map py_lower_char s"

text \<open>\<open>s.lstrip()\<close>, \<open>s.rstrip()\<close>, \<open>s.strip()\<close> with no argument: whitespace is removed.\<close>

definition py_lstrip :: "string \<Rightarrow> string" where
  "py_lstrip s = dropWhile py_isspace s"

definition py_rstrip :: "string \<Rightarrow> string" where
  "py_rstrip s = rev (dropWhile py_isspace (rev s))"

definition py_strip :: "string \<Rightarrow> string" where
  "py_strip s = py_rstrip (py_lstrip s)"

text \<open>\<open>s.split()\<close> with no argument: the maximal runs of non-whitespace, in order.\<close>

function py_split :: "string \<Rightarrow> string list" where
  "py_split [] = []"
| "py_split (c # cs) =
     (if py_isspace c then py_split cs
      else (c # takeWhile (\<lambda>x. \<not> py_isspace x) cs) # py_split (dropWhile (\<lambda>x. \<not> py_isspace x) cs))"
  by pat_completeness auto
termination
  by (relation "measure length") (auto simp: less_Suc_eq_le length_dropWhile_le)

text \<open>
  \<open>s.splitlines()\<close>: lines end at a line boundary, \<open>\r\n\<close> counts as one boundary, and a
  final boundary opens no further line.
\<close>

definition after_break :: "string \<Rightarrow> string" where
  "after_break r = (case r of
       [] \<Rightarrow> []
     | b # rs \<Rightarrow> (case rs of
          [] \<Rightarrow> []
        | n # rs' \<Rightarrow> if b = CHR 0x0D \<and> n = CHR 0x0A then rs' else rs))"

function py_splitlines :: "string \<Rightarrow> string list" where
  "py_splitlines [] = []"
| "py_splitlines (c # cs) =
     takeWhile (\<lambda>x. \<not> py_islinebreak x) (c # cs)
       # py_splitlines (after_break (dropWhile (\<lambda>x. \<not> py_islinebreak x) (c # cs)))"
  by pat_completeness auto
termination
proof (relation "measure length")
  show "wf (measure length)" by simp
next
  fix c :: char and cs :: string
  let ?r = "dropWhile (\<lambda>x. \<not> py_islinebreak x) (c # cs)"
  have a: "length ?r \<le> Suc (length cs)"
    using length_dropWhile_le [of "\<lambda>x. \<not> py_islinebreak x" "c # cs"] by simp
  have "length (after_break ?r) < Suc (length cs)"
  proof (cases ?r)
    case Nil
    then show ?thesis by (simp add: after_break_def)
  next
    case (Cons b rs)
    then have "length (after_break ?r) \<le> length rs"
      by (auto simp: after_break_def split: list.splits)
    with a Cons show ?thesis by simp
  qed
  then show "(after_break ?r, c # cs) \<in> measure length" by simp
qed

definition py_startswith :: "string \<Rightarrow> string \<Rightarrow> bool" where
  "py_startswith s p = (take (length p) s = p)"

definition py_endswith :: "string \<Rightarrow> string \<Rightarrow> bool" where
  "py_endswith s p = (drop (length s - length p) s = p)"

fun py_join :: "string \<Rightarrow> string list \<Rightarrow> string" where
  "py_join sep [] = []"
| "py_join sep [x] = x"
| "py_join sep (x # y # ys) = x @ sep @ py_join sep (y # ys)"

text \<open>\<open>str(n)\<close> and \<open>f"{n}"\<close> for an integer: the decimal numeral, with a minus sign.\<close>

definition digit_char :: "nat \<Rightarrow> char" where
  "digit_char d = ''0123456789'' ! d"

function dec :: "nat \<Rightarrow> string" where
  "dec n = (if n < 10 then [digit_char n] else dec (n div 10) @ [digit_char (n mod 10)])"
  by pat_completeness auto
termination
  by (relation "measure id") auto

declare dec.simps [simp del]

definition py_str_int :: "int \<Rightarrow> string" where
  "py_str_int i = (if i < 0 then CHR ''-'' # dec (nat (- i)) else dec (nat i))"

text \<open>
  \<open>int(s)\<close> for a string: surrounding whitespace is dropped, one sign is allowed, then
  decimal digits, where single underscores may stand between digits. Anything else
  raises ValueError (\<open>None\<close> here). The whitespace \<open>int\<close> drops is narrower than that of
  \<open>str.strip\<close>: the separators 28 to 31 are kept, and make the conversion fail.
\<close>

definition py_int_isspace :: "char \<Rightarrow> bool" where
  "py_int_isspace c = (let n = code_point c in (9 \<le> n \<and> n \<le> 13) \<or> n = 32 \<or> n = 133 \<or> n = 160)"

definition py_int_strip :: "string \<Rightarrow> string" where
  "py_int_strip s = rev (dropWhile py_int_isspace (rev (dropWhile py_int_isspace s)))"

fun digits_ok :: "string \<Rightarrow> bool" where
  "digits_ok [] = False"
| "digits_ok [c] = py_isdigit c"
| "digits_ok (c # d # cs) =
     (py_isdigit c \<and> (if d = CHR ''_'' then digits_ok cs else digits_ok (d # cs)))"

definition digit_val :: "char \<Rightarrow> nat" where
  "digit_val c = code_point c - 48"

definition digits_value :: "string \<Rightarrow> nat" where
  "digits_value s = foldl (\<lambda>a c. 10 * a + digit_val c) 0 (filter py_isdigit s)"

definition py_int :: "string \<Rightarrow> int option" where
  "py_int s = (case py_int_strip s of
       [] \<Rightarrow> None
     | c # r \<Rightarrow>
         if c = CHR ''-'' then (if digits_ok r then Some (- int (digits_value r)) else None)
         else if c = CHR ''+'' then (if digits_ok r then Some (int (digits_value r)) else None)
         else (if digits_ok (c # r) then Some (int (digits_value (c # r))) else None))"

section \<open>LookupWorker.run: from the scanner's diagnostic text to the TOC string\<close>

text \<open>
  The exceptions the parsing lines can raise are caught by the \<open>except Exception\<close> clause
  of \<open>run\<close>, which emits the \<open>error\<close> signal; so is the explicit "No audio tracks found."
  branch. \<open>ValueError\<close> carries the literal that \<open>int\<close> refused.
\<close>

datatype lookup_error = NoAudioTracks | IndexError | ValueError string

record toc =
  track_count :: int
  leadout :: int
  offsets :: "string list"

text \<open>\<open>l.strip() and l.strip().split()[0].endswith('.')\<close>\<close>

definition is_track_line :: "string \<Rightarrow> bool" where
  "is_track_line l =
     (py_strip l \<noteq> [] \<and>
      (case py_split (py_strip l) of [] \<Rightarrow> False | t # _ \<Rightarrow> py_endswith t ''.''))"

text \<open>\<open>line.strip().startswith("TOTAL")\<close>\<close>

definition is_total_line :: "string \<Rightarrow> bool" where
  "is_total_line l = py_startswith (py_strip l) ''TOTAL''"

text \<open>\<open>line.split()[k]\<close>: IndexError when the line has too few fields.\<close>

definition field :: "string \<Rightarrow> nat \<Rightarrow> lookup_error + string" where
  "field l k = (let fs = py_split l in if k < length fs then Inr (fs ! k) else Inl IndexError)"

text \<open>\<open>int(x)\<close> on a field.\<close>

definition int_of_field :: "string \<Rightarrow> lookup_error + int" where
  "int_of_field x = (case py_int x of None \<Rightarrow> Inl (ValueError x) | Some v \<Rightarrow> Inr v)"

text \<open>\<open>[line.split()[3] for line in track_lines]\<close>: stops at the first line that raises.\<close>

fun fourth_fields :: "string list \<Rightarrow> lookup_error + string list" where
  "fourth_fields [] = Inr []"
| "fourth_fields (l # ls) =
     (case field l 3 of
        Inl e \<Rightarrow> Inl e
      | Inr x \<Rightarrow> (case fourth_fields ls of Inl e \<Rightarrow> Inl e | Inr xs \<Rightarrow> Inr (x # xs)))"

text \<open>
  The loop over all lines that looks for the first line starting with TOTAL, reads its
  second field and breaks; \<open>total_sectors\<close> stays 0 when no line matches.
\<close>

fun total_sectors :: "string list \<Rightarrow> lookup_error + int" where
  "total_sectors [] = Inr 0"
| "total_sectors (l # ls) =
     (if is_total_line l
      then (case field l 1 of Inl e \<Rightarrow> Inl e | Inr x \<Rightarrow> int_of_field x)
      else total_sectors ls)"

text \<open>Lines 408 to 425 of \<open>run\<close>, on the lines of the scanner's error stream.\<close>

definition parse_toc :: "string list \<Rightarrow> lookup_error + toc" where
  "parse_toc lines =
     (let track_lines = filter is_track_line lines;
          n = int (length track_lines)
      in if n = 0 then Inl NoAudioTracks
         else (case fourth_fields track_lines of
            Inl e \<Rightarrow> Inl e
          | Inr offs \<Rightarrow>
             (case field (hd track_lines) 3 of
                Inl e \<Rightarrow> Inl e
              | Inr x \<Rightarrow>
                 (case int_of_field x of
                    Inl e \<Rightarrow> Inl e
                  | Inr first_track_sector \<Rightarrow>
                     (case total_sectors lines of
                        Inl e \<Rightarrow> Inl e
                      | Inr tot \<Rightarrow>
                         Inr \<lparr>track_count = n, leadout = first_track_sector + tot,
                              offsets = offs\<rparr>)))))"

text \<open>Line 427: \<open>f"1+{track_count}+{leadout}+{'+'.join(offsets)}"\<close>\<close>

definition toc_str :: "toc \<Rightarrow> string" where
  "toc_str t =
     ''1+'' @ py_str_int (track_count t) @ ''+'' @ py_str_int (leadout t) @ ''+''
       @ py_join ''+'' (offsets t)"

text \<open>Lines 402 to 427: the error stream's text to the TOC, and to the TOC string.\<close>

definition read_toc :: "string \<Rightarrow> lookup_error + toc" where
  "read_toc stderr_text = parse_toc (py_splitlines stderr_text)"

definition read_toc_str :: "string \<Rightarrow> lookup_error + string" where
  "read_toc_str stderr_text =
     (case read_toc stderr_text of Inl e \<Rightarrow> Inl e | Inr t \<Rightarrow> Inr (toc_str t))"

text \<open>
  The spec's reading of a track line, for comparison with \<open>is_track_line\<close>: the first
  whitespace-delimited token is a numeric label (one or more decimal digits) followed by
  the marker \<open>.\<close>
\<close>

definition spec_track_line :: "string \<Rightarrow> bool" where
  "spec_track_line l =
     (case py_split l of
        [] \<Rightarrow> False
      | t # _ \<Rightarrow> t \<noteq> [] \<and> last t = CHR ''.'' \<and> butlast t \<noteq> [] \<and> list_all py_isdigit (butlast t))"

text \<open>
  The spec's reading of the line that carries the total: its first whitespace-delimited
  token is the keyword \<open>TOTAL\<close>.
\<close>

definition spec_total_line :: "string \<Rightarrow> bool" where
  "spec_total_line l = (case py_split l of [] \<Rightarrow> False | t # _ \<Rightarrow> t = ''TOTAL'')"

text \<open>
  Two readings of a line by its first whitespace-delimited token alone, in which the
  parser's behaviour is stated below: the token ends in \<open>.\<close> (numeric label or not), and
  the token begins with the five letters \<open>TOTAL\<close> (whatever follows them).
\<close>

definition dot_token_line :: "string \<Rightarrow> bool" where
  "dot_token_line l = (case py_split l of [] \<Rightarrow> False | t # _ \<Rightarrow> last t = CHR ''.'')"

definition total_token_line :: "string \<Rightarrow> bool" where
  "total_token_line l = (case py_split l of [] \<Rightarrow> False | t # _ \<Rightarrow> take 5 t = ''TOTAL'')"

text \<open>
  The spec's rendering of the fingerprint, for comparison with \<open>toc_str\<close>: the numbers
  1, track count, leadout sector and the start sectors in order, joined by \<open>+\<close>.
\<close>

definition spec_fingerprint :: "int \<Rightarrow> int \<Rightarrow> nat list \<Rightarrow> string" where
  "spec_fingerprint n lo starts =
     py_join ''+'' (map py_str_int (1 # n # lo # map int starts))"

text \<open>
  The variables \<open>track_count\<close>, \<open>leadout\<close>, \<open>offsets\<close> of \<open>run\<close> for a disc whose start
  sectors are the numbers \<open>starts\<close>: the scanner prints each sector as its decimal numeral.
\<close>

definition disc_toc :: "int \<Rightarrow> int \<Rightarrow> nat list \<Rightarrow> toc" where
  "disc_toc n lo starts = \<lparr>track_count = n, leadout = lo, offsets = map dec starts\<rparr>"

section \<open>The lookup response: LookupWorker.run (lines 445 to 449) and App.lookup_finished\<close>

datatype json = JNull | JBool bool | JNum int | JStr string | JArr "json list"
  | JObj "(string \<times> json) list"

text \<open>Python's truth value of a decoded JSON value.\<close>

fun py_truthy :: "json \<Rightarrow> bool" where
  "py_truthy JNull = False"
| "py_truthy (JBool b) = b"
| "py_truthy (JNum n) = (n \<noteq> 0)"
| "py_truthy (JStr s) = (s \<noteq> [])"
| "py_truthy (JArr xs) = (xs \<noteq> [])"
| "py_truthy (JObj kvs) = (kvs \<noteq> [])"

text \<open>A decoded JSON object is a dict: an association list with distinct keys.\<close>

type_synonym py_dict = "(string \<times> json) list"

definition has_key :: "py_dict \<Rightarrow> string \<Rightarrow> bool" where
  "has_key d k = (map_of d k \<noteq> None)"

text \<open>\<open>k in d and d[k]\<close>, as a truth value.\<close>

definition key_truthy :: "py_dict \<Rightarrow> string \<Rightarrow> bool" where
  "key_truthy d k = (case map_of d k of None \<Rightarrow> False | Some v \<Rightarrow> py_truthy v)"

datatype lookup_signal = SigFinished py_dict | SigError string

text \<open>The three messages of the lookup that report a disc without metadata.\<close>

definition msg_no_releases :: string where
  "msg_no_releases = ''No releases found for this disc.''"

definition msg_no_metadata :: string where
  "msg_no_metadata = ''Could not find metadata for this disc.''"

definition msg_cdstub :: string where
  "msg_cdstub =
     ''Found a CDStub, but no official release. Please add to MusicBrainz or enter manually.''"

definition handle_response :: "py_dict \<Rightarrow> lookup_signal" where
  "handle_response data =
     (if key_truthy data ''releases'' \<or> has_key data ''cdstub'' then SigFinished data
      else SigError msg_no_releases)"

text \<open>
  What \<open>App.lookup_finished\<close> and \<open>App.handle_error\<close> put before the user: an error
  dialog, the choice among several releases (with the manual-entry button), or the
  confirmation of the single release. A truthy \<open>releases\<close> value that is no array makes
  the slot raise.
\<close>

datatype ui_outcome = ErrorDialog string | ReleaseChoice "json list" | ConfirmRelease json
  | SlotRaised

definition lookup_finished :: "py_dict \<Rightarrow> ui_outcome" where
  "lookup_finished metadata =
     (if metadata = [] \<or>
         ((\<not> has_key metadata ''releases'' \<or> \<not> key_truthy metadata ''releases'')
            \<and> \<not> has_key metadata ''cdstub'')
      then ErrorDialog msg_no_metadata
      else
        let releases = (case map_of metadata ''releases'' of None \<Rightarrow> JArr [] | Some v \<Rightarrow> v)
        in if \<not> py_truthy releases
           then ErrorDialog msg_cdstub
           else (case releases of
                   JArr rs \<Rightarrow>
                     if 1 < length rs then ReleaseChoice rs
                     else (case rs of [] \<Rightarrow> SlotRaised | r # _ \<Rightarrow> ConfirmRelease r)
                 | _ \<Rightarrow> SlotRaised))"

text \<open>
  \<open>start_lookup\<close> connects the worker's \<open>finished\<close> signal to \<open>lookup_finished\<close> and its
  \<open>error\<close> signal to \<open>handle_error\<close>, which shows the message.
\<close>

definition lookup_outcome :: "py_dict \<Rightarrow> ui_outcome" where
  "lookup_outcome data =
     (case handle_response data of
        SigError m \<Rightarrow> ErrorDialog m
      | SigFinished d \<Rightarrow> lookup_finished d)"

section \<open>The rip job: paths, file names and encoder commands\<close>

text \<open>
  \<open>os.path.join\<close> on a POSIX system (the rip runs \<open>cdparanoia\<close>): a component that
  starts with \<open>/\<close> replaces what was joined so far; otherwise it is appended, after a \<open>/\<close>
  unless the path so far is empty or ends in one.
\<close>

definition path_join2 :: "string \<Rightarrow> string \<Rightarrow> string" where
  "path_join2 path b =
     (if py_startswith b ''/'' then b
      else if path = [] \<or> py_endswith path ''/'' then path @ b
      else path @ ''/'' @ b)"

definition os_path_join :: "string \<Rightarrow> string list \<Rightarrow> string" where
  "os_path_join a p = foldl path_join2 a p"

text \<open>
  \<open>sanitize_filename\<close>: keeps the characters that are alphanumeric, a space, a dot or an
  underscore, then drops trailing whitespace.
\<close>

definition sanitize_filename :: "string \<Rightarrow> string" where
  "sanitize_filename name =
     py_rstrip (filter (\<lambda>c. py_isalnum c \<or> c \<in> set [CHR '' '', CHR ''.'', CHR ''_'']) name)"

text \<open>
  \<open>f"{n:02d}"\<close>: the decimal numeral with its sign, filled with zeros after the sign to a
  width of two.
\<close>

definition py_format_02d :: "int \<Rightarrow> string" where
  "py_format_02d n =
     (if n < 0 then CHR ''-'' # dec (nat (- n))
      else replicate (2 - length (dec (nat n))) CHR ''0'' @ dec (nat n))"

text \<open>\<open>cmd.insert(i, x)\<close> for an index \<open>i \<ge> 0\<close>; past the end it appends.\<close>

definition py_insert :: "nat \<Rightarrow> 'a \<Rightarrow> 'a list \<Rightarrow> 'a list" where
  "py_insert i x xs = take i xs @ x # drop i xs"

text \<open>
  The entries of \<open>rip_config\<close> that \<open>App.start_rip\<close> fills in. The cover art is what
  \<open>QLabel.pixmap()\<close> gave: nothing, a null pixmap, or a picture (its content is abstract).
\<close>

record track =
  number :: string
  title :: string

datatype cover = NoPixmap | NullPixmap | Picture string

record rip_config =
  device :: string
  format :: string
  save_path :: string
  artist :: string
  album :: string
  year :: string
  disc_num :: string
  disc_total :: string
  tracks :: "track list"
  cover_art :: cover

text \<open>\<open>RipWorker.get_encoder_cmd\<close>, lines 533 to 570.\<close>

definition flac_cmd :: "rip_config \<Rightarrow> track \<Rightarrow> string \<Rightarrow> string list" where
  "flac_cmd cfg t output_filename =
     [''flac'', ''-s'', ''--best'', ''--verify'',
      ''-T'', ''ARTIST='' @ artist cfg,
      ''-T'', ''ALBUM='' @ album cfg,
      ''-T'', ''TITLE='' @ title t,
      ''-T'', ''TRACKNUMBER='' @ number t,
      ''-T'', ''DATE='' @ year cfg,
      ''-'', ''-o'', output_filename]"

definition lame_cmd :: "rip_config \<Rightarrow> track \<Rightarrow> string list" where
  "lame_cmd cfg t =
     [''lame'', ''-S'', ''-b'', ''320'', ''--add-id3v2'',
      ''--tt'', title t, ''--ta'', artist cfg, ''--tl'', album cfg,
      ''--ty'', year cfg, ''--tn'', number t]"

definition oggenc_cmd :: "rip_config \<Rightarrow> track \<Rightarrow> string list" where
  "oggenc_cmd cfg t =
     [''oggenc'', ''-Q'', ''-q'', ''10'',
      ''-a'', artist cfg, ''-l'', album cfg, ''-t'', title t,
      ''-N'', number t, ''-d'', year cfg]"

definition get_encoder_cmd :: "rip_config \<Rightarrow> track \<Rightarrow> string \<Rightarrow> string \<Rightarrow> string list" where
  "get_encoder_cmd cfg t cover_art_path output_filename =
     (if format cfg = ''FLAC'' then
        let cmd = flac_cmd cfg t output_filename;
            cmd = (if disc_num cfg \<noteq> [] then py_insert 3 (''-T DISCNUMBER='' @ disc_num cfg) cmd
                   else cmd);
            cmd = (if disc_total cfg \<noteq> [] then py_insert 3 (''-T TOTALDISCS='' @ disc_total cfg) cmd
                   else cmd);
            cmd = (if cover_art_path \<noteq> [] then py_insert 3 (''--picture='' @ cover_art_path) cmd
                   else cmd)
        in cmd
      else if format cfg = ''MP3'' then
        let cmd = lame_cmd cfg t;
            cmd = (if disc_num cfg \<noteq> [] \<and> disc_total cfg \<noteq> []
                   then cmd @ [''--tv'', ''TPOS='' @ disc_num cfg @ ''/'' @ disc_total cfg]
                   else cmd)
        in cmd @ [''-'', output_filename]
      else if format cfg = ''OGG'' then
        let cmd = oggenc_cmd cfg t;
            cmd = (if disc_num cfg \<noteq> [] then cmd @ [''-c'', ''DISCNUMBER='' @ disc_num cfg]
                   else cmd);
            cmd = (if disc_total cfg \<noteq> [] then cmd @ [''-c'', ''TOTALDISCS='' @ disc_total cfg]
                   else cmd)
        in cmd @ [''-o'', output_filename, ''-'']
      else [])"

text \<open>
  The directory of the job (lines 472 to 481) and the file of one track (lines 491 to
  497 of \<open>run\<close>); \<open>int(track['number'])\<close> raises ValueError on a number that is no integer.
\<close>

definition base_path :: "rip_config \<Rightarrow> string" where
  "base_path cfg =
     os_path_join (save_path cfg)
       [sanitize_filename (artist cfg), sanitize_filename (album cfg)]"

definition output_path :: "rip_config \<Rightarrow> string" where
  "output_path cfg =
     (if disc_num cfg \<noteq> [] then os_path_join (base_path cfg) [''Disc '' @ disc_num cfg]
      else base_path cfg)"

definition track_file :: "rip_config \<Rightarrow> int \<Rightarrow> track \<Rightarrow> string" where
  "track_file cfg track_num t =
     py_format_02d track_num @ ''. '' @ sanitize_filename (title t) @ ''.'' @ py_lower (format cfg)"

definition output_filename :: "rip_config \<Rightarrow> track \<Rightarrow> string option" where
  "output_filename cfg t =
     (case py_int (number t) of
        None \<Rightarrow> None
      | Some track_num \<Rightarrow> Some (os_path_join (output_path cfg) [track_file cfg track_num t]))"

section \<open>The progress value: \<open>int((i + 1) / total_tracks * 100)\<close>\<close>

text \<open>
  Python computes this expression in double precision: the quotient of the two integers
  is the double nearest to the exact quotient, the product with 100 is the double nearest
  to the exact product, ties going to the even mantissa, and \<open>int\<close> cuts the fraction
  off. A positive double is written here as a mantissa \<open>m\<close> and an exponent \<open>e\<close>, standing
  for \<open>m * 2 ^ e\<close>, with \<open>2 ^ 52 \<le> m \<le> 2 ^ 53\<close> after rounding. The quotients and products
  of this program lie far inside the range of normal doubles, so neither overflow nor
  gradual underflow is modelled.
\<close>

text \<open>
  The fraction \<open>a / b\<close> is scaled by a power of two, kept in \<open>e\<close>, until it lies between
  \<open>2 ^ 52\<close> (4503599627370496) and \<open>2 ^ 53\<close> (9007199254740992).
\<close>

function scale_up :: "nat \<Rightarrow> nat \<Rightarrow> int \<Rightarrow> nat \<times> nat \<times> int" where
  "scale_up a b e =
     (if a = 0 \<or> b = 0 \<or> 4503599627370496 * b \<le> a then (a, b, e)
      else scale_up (2 * a) b (e - 1))"
  by pat_completeness auto
termination
  by (relation "measure (\<lambda>(a, b, e). 4503599627370496 * b - a)") auto

function scale_down :: "nat \<Rightarrow> nat \<Rightarrow> int \<Rightarrow> nat \<times> nat \<times> int" where
  "scale_down a b e =
     (if b = 0 \<or> a < 9007199254740992 * b then (a, b, e)
      else scale_down a (2 * b) (e + 1))"
  by pat_completeness auto
termination
  by (relation "measure (\<lambda>(a, b, e). Suc a - 9007199254740992 * b)") auto

declare scale_up.simps [simp del] scale_down.simps [simp del]

definition round_half_even :: "nat \<Rightarrow> nat \<Rightarrow> nat" where
  "round_half_even a b =
     (let q = a div b; r = a mod b
      in if 2 * r < b then q
         else if b < 2 * r then q + 1
         else if even q then q else q + 1)"

text \<open>The double nearest to \<open>a / b\<close>, for \<open>b > 0\<close>.\<close>

definition nearest_double :: "nat \<Rightarrow> nat \<Rightarrow> nat \<times> int" where
  "nearest_double a b =
     (case scale_up a b 0 of (a1, b1, e1) \<Rightarrow>
        (case scale_down a1 b1 e1 of (a2, b2, e2) \<Rightarrow> (round_half_even a2 b2, e2)))"

text \<open>\<open>x * k\<close> for a double \<open>x\<close> and a natural \<open>k\<close> that is a double itself, such as 100.\<close>

definition double_times :: "nat \<times> int \<Rightarrow> nat \<Rightarrow> nat \<times> int" where
  "double_times x k =
     (case x of (m, e) \<Rightarrow> (case nearest_double (m * k) 1 of (m', e') \<Rightarrow> (m', e + e')))"

text \<open>\<open>int(x)\<close> for a double \<open>x \<ge> 0\<close>.\<close>

definition double_to_int :: "nat \<times> int \<Rightarrow> int" where
  "double_to_int x =
     (case x of (m, e) \<Rightarrow> if 0 \<le> e then int (m * 2 ^ nat e) else int (m div 2 ^ nat (- e)))"

text \<open>
  The value emitted after the track at index \<open>i\<close> (from 0) of \<open>total_tracks\<close>; inside the
  loop \<open>total_tracks\<close> is at least 1.
\<close>

definition progress_value :: "nat \<Rightarrow> nat \<Rightarrow> int" where
  "progress_value i total_tracks =
     double_to_int (double_times (nearest_double (i + 1) total_tracks) 100)"

section \<open>RipWorker.run and App.start_rip\<close>

text \<open>
  What the job meets outside the program: what stands at a path before the job and
  whether a missing directory can be made there, and for the track at each index of the
  list the exit status and error text of the processes. The programs themselves are
  taken to be installed, so that starting them does not raise.
\<close>

datatype path_kind = Absent | Directory | OtherFile

record world =
  kind_of :: "string \<Rightarrow> path_kind"
  creatable :: "string \<Rightarrow> bool"
  wav_result :: "nat \<Rightarrow> int \<times> string"
  rip_returncode :: "nat \<Rightarrow> int"
  enc_result :: "nat \<Rightarrow> int \<times> string"

text \<open>
  Whether \<open>os.makedirs(name, exist_ok=exist_ok)\<close> raises: a directory that is there
  already is an error only without \<open>exist_ok\<close>; anything else at the path is one always.
\<close>

definition makedirs_raises :: "path_kind \<Rightarrow> bool \<Rightarrow> bool \<Rightarrow> bool" where
  "makedirs_raises kind can_create exist_ok =
     (case kind of Directory \<Rightarrow> \<not> exist_ok | OtherFile \<Rightarrow> True | Absent \<Rightarrow> \<not> can_create)"

text \<open>
  What the job does, in order: the calls that write to the file system or start a
  process, and the signals of the worker. \<open>ExceptionSignal\<close> is the \<open>error\<close> signal that the
  \<open>except Exception\<close> clause of \<open>run\<close> emits.
\<close>

datatype rip_exception = MakedirsError string | IntValueError string | EmptyCommand

datatype effect =
    ShowError string
  | SetStatus string
  | MakeDirs string
  | SaveCover string
  | StatusUpdate string
  | LogMessage string
  | RunProcess "string list"
  | StartProcess "string list"
  | AlbumProgress int
  | Finished
  | ErrorSignal string
  | ExceptionSignal rip_exception

text \<open>The loop of \<open>run\<close> over \<open>enumerate(tracks)\<close>, lines 490 to 528, from index \<open>i\<close> on.\<close>

fun rip_tracks :: "rip_config \<Rightarrow> world \<Rightarrow> string \<Rightarrow> nat \<Rightarrow> nat \<Rightarrow> track list \<Rightarrow> effect list" where
  "rip_tracks cfg w cover_art_path total_tracks i [] = [Finished]"
| "rip_tracks cfg w cover_art_path total_tracks i (t # rest) =
     (case py_int (number t) of
        None \<Rightarrow> [ExceptionSignal (IntValueError (number t))]
      | Some track_num \<Rightarrow>
          let out = os_path_join (output_path cfg) [track_file cfg track_num t]
          in StatusUpdate (''Ripping Track '' @ py_str_int track_num @ ''/''
                 @ py_str_int (int total_tracks) @ '': '' @ [CHR 0x27] @ title t @ [CHR 0x27])
             # (if format cfg = ''WAV'' then
                  let rip_cmd = [''cdparanoia'', ''-q'', ''-d'', device cfg, py_str_int track_num, out]
                  in LogMessage (''Ripping directly to WAV: '' @ py_join '' '' rip_cmd)
                     # RunProcess rip_cmd
                     # (case wav_result w i of (returncode, stderr) \<Rightarrow>
                          if returncode \<noteq> 0
                          then [ErrorSignal (''cdparanoia failed for track '' @ py_str_int track_num
                                  @ '': '' @ stderr)]
                          else AlbumProgress (progress_value i total_tracks)
                               # rip_tracks cfg w cover_art_path total_tracks (i + 1) rest)
                else
                  let rip_cmd = [''cdparanoia'', ''-q'', ''-d'', device cfg, py_str_int track_num, ''-''];
                      encoder_cmd = get_encoder_cmd cfg t cover_art_path out
                  in LogMessage (''Ripping: '' @ py_join '' '' rip_cmd)
                     # LogMessage (''Encoding: '' @ py_join '' '' encoder_cmd)
                     # StartProcess rip_cmd
                     # (if encoder_cmd = [] then [ExceptionSignal EmptyCommand]
                        else StartProcess encoder_cmd
                          # (case enc_result w i of (returncode, enc_stderr) \<Rightarrow>
                               if returncode \<noteq> 0
                               then [ErrorSignal (''Encoder failed for track '' @ py_str_int track_num
                                       @ '': '' @ enc_stderr)]
                               else AlbumProgress (progress_value i total_tracks)
                                    # rip_tracks cfg w cover_art_path total_tracks (i + 1) rest))))"

text \<open>\<open>RipWorker.run\<close>, lines 469 to 531.\<close>

definition RipWorker_run :: "rip_config \<Rightarrow> world \<Rightarrow> effect list" where
  "RipWorker_run cfg w =
     (let total_tracks = length (tracks cfg);
          out_dir = output_path cfg
      in MakeDirs out_dir
         # (if makedirs_raises (kind_of w out_dir) (creatable w out_dir) True
            then [ExceptionSignal (MakedirsError out_dir)]
            else (case cover_art cfg of
                    Picture img \<Rightarrow>
                      SaveCover (os_path_join out_dir [''cover.jpg''])
                      # rip_tracks cfg w (os_path_join out_dir [''cover.jpg'']) total_tracks 0
                          (tracks cfg)
                  | _ \<Rightarrow> rip_tracks cfg w [] total_tracks 0 (tracks cfg))))"

text \<open>
  \<open>App.start_rip\<close>, lines 240 to 274: the check of artist, album and tracks, and the start
  of the worker.
\<close>

definition msg_invalid_job :: string where
  "msg_invalid_job = ''Artist, Album, and Track information cannot be empty.''"

definition start_rip :: "rip_config \<Rightarrow> world \<Rightarrow> effect list" where
  "start_rip cfg w =
     (if artist cfg = [] \<or> album cfg = [] \<or> tracks cfg = [] then [ShowError msg_invalid_job]
      else SetStatus ''Starting rip...'' # RipWorker_run cfg w)"

text \<open>The effects that write to the file system, and those that start a process.\<close>

fun is_write :: "effect \<Rightarrow> bool" where
  "is_write (MakeDirs p) = True"
| "is_write (SaveCover p) = True"
| "is_write e = False"

fun is_launch :: "effect \<Rightarrow> bool" where
  "is_launch (RunProcess c) = True"
| "is_launch (StartProcess c) = True"
| "is_launch e = False"

text \<open>The signals by which the worker reports how the tracks went.\<close>

fun is_report :: "effect \<Rightarrow> bool" where
  "is_report (AlbumProgress p) = True"
| "is_report Finished = True"
| "is_report (ErrorSignal m) = True"
| "is_report (ExceptionSignal x) = True"
| "is_report e = False"

section \<open>Evaluating decimal numerals\<close>

lemma dec_numeral [simp]:
  "dec (numeral k) =
     (if (numeral k :: nat) < 10 then [digit_char (numeral k)]
      else dec (numeral k div 10) @ [digit_char (numeral k mod 10)])"
  by (rule dec.simps)

lemma dec_0 [simp]: "dec 0 = ''0''"
  by (simp add: dec.simps digit_char_def)

lemma dec_1 [simp]: "dec (Suc 0) = ''1''"
  by (simp add: dec.simps digit_char_def)

section \<open>Facts about the string primitives\<close>

lemma py_split_spaces: "\<forall>c\<in>set w. py_isspace c \<Longrightarrow> py_split w = []"
  by (induction w) auto

lemma py_split_lstrip: "py_split (py_lstrip s) = py_split s"
  unfolding py_lstrip_def by (induction s) auto

lemma takeWhile_nonspace_append:
  "\<forall>c\<in>set w. py_isspace c \<Longrightarrow>
     takeWhile (\<lambda>x. \<not> py_isspace x) (cs @ w) = takeWhile (\<lambda>x. \<not> py_isspace x) cs"
  by (induction cs) (auto simp: takeWhile_eq_Nil_iff intro: hd_in_set)

lemma dropWhile_nonspace_append:
  "\<forall>c\<in>set w. py_isspace c \<Longrightarrow>
     dropWhile (\<lambda>x. \<not> py_isspace x) (cs @ w) = dropWhile (\<lambda>x. \<not> py_isspace x) cs @ w"
proof (induction cs)
  case Nil
  then show ?case by (cases w) auto
next
  case (Cons c cs)
  then show ?case by simp
qed

lemma py_split_append_spaces:
  "\<forall>c\<in>set w. py_isspace c \<Longrightarrow> py_split (s @ w) = py_split s"
proof (induction s rule: py_split.induct)
  case 1
  then show ?case by (simp add: py_split_spaces)
next
  case (2 c cs)
  then show ?case
    by (simp add: takeWhile_nonspace_append dropWhile_nonspace_append)
qed

lemma py_rstrip_decomp: "s = py_rstrip s @ rev (takeWhile py_isspace (rev s))"
proof -
  have "rev (takeWhile py_isspace (rev s) @ dropWhile py_isspace (rev s)) = rev (rev s)"
    by (simp only: takeWhile_dropWhile_id)
  then show ?thesis
    by (simp only: rev_append rev_rev_ident py_rstrip_def)
qed

lemma py_split_rstrip: "py_split (py_rstrip s) = py_split s"
proof -
  let ?w = "rev (takeWhile py_isspace (rev s))"
  have "\<forall>c\<in>set ?w. py_isspace c"
    by (auto dest: set_takeWhileD)
  then have "py_split (py_rstrip s @ ?w) = py_split (py_rstrip s)"
    by (rule py_split_append_spaces)
  with py_rstrip_decomp [of s] show ?thesis by simp
qed

lemma py_split_strip: "py_split (py_strip s) = py_split s"
  by (simp add: py_strip_def py_split_rstrip py_split_lstrip)

lemma py_split_tokens_nonempty: "t \<in> set (py_split s) \<Longrightarrow> t \<noteq> []"
  by (induction s rule: py_split.induct) (auto split: if_splits)

lemma py_split_tokens_nonspace: "t \<in> set (py_split s) \<Longrightarrow> c \<in> set t \<Longrightarrow> \<not> py_isspace c"
  by (induction s rule: py_split.induct) (auto split: if_splits dest: set_takeWhileD)

lemma py_endswith_dot: "py_endswith t ''.'' \<longleftrightarrow> t \<noteq> [] \<and> last t = CHR ''.''"
proof (cases "t = []")
  case True
  then show ?thesis by (simp add: py_endswith_def)
next
  case False
  then have "t = butlast t @ [last t]" by simp
  then have "drop (length t - 1) t = drop (length (butlast t)) (butlast t @ [last t])"
    by simp
  then have "drop (length t - 1) t = [last t]" by simp
  with False show ?thesis by (simp add: py_endswith_def)
qed

lemma is_track_line_iff:
  "is_track_line l \<longleftrightarrow> (\<exists>t ts. py_split l = t # ts \<and> last t = CHR ''.'')"
proof -
  have ne: "py_split l \<noteq> [] \<Longrightarrow> py_strip l \<noteq> []"
  proof
    assume a: "py_split l \<noteq> []" and b: "py_strip l = []"
    have "py_split (py_strip l) = py_split l" by (rule py_split_strip)
    with a b show False by simp
  qed
  show ?thesis
  proof (cases "py_split l")
    case Nil
    then show ?thesis by (simp add: is_track_line_def py_split_strip)
  next
    case (Cons t ts)
    then have "t \<noteq> []" using py_split_tokens_nonempty [of t l] by simp
    with Cons ne show ?thesis
      by (simp add: is_track_line_def py_split_strip py_endswith_dot)
  qed
qed

section \<open>Facts about the TOC parser\<close>

lemma fourth_fields_ok:
  "\<forall>l\<in>set ls. 4 \<le> length (py_split l) \<Longrightarrow>
     fourth_fields ls = Inr (map (\<lambda>l. py_split l ! 3) ls)"
  by (induction ls) (auto simp: field_def)

lemma fourth_fields_Inr:
  "fourth_fields ls = Inr xs \<Longrightarrow>
     xs = map (\<lambda>l. py_split l ! 3) ls \<and> (\<forall>l\<in>set ls. 4 \<le> length (py_split l))"
  by (induction ls arbitrary: xs) (auto simp: field_def Let_def split: sum.splits if_splits)

lemma total_sectors_none:
  "filter is_total_line ls = [] \<Longrightarrow> total_sectors ls = Inr 0"
  by (induction ls) (auto split: if_splits)

lemma total_sectors_first:
  "find is_total_line ls = Some tline \<Longrightarrow> 2 \<le> length (py_split tline) \<Longrightarrow>
     py_int (py_split tline ! 1) = Some v \<Longrightarrow> total_sectors ls = Inr v"
  by (induction ls) (auto simp: field_def int_of_field_def split: if_splits)

lemma total_sectors_filter:
  "total_sectors (filter (\<lambda>l. is_track_line l \<or> is_total_line l) ls) = total_sectors ls"
  by (induction ls) auto

lemma track_lines_filter:
  "filter is_track_line (filter (\<lambda>l. is_track_line l \<or> is_total_line l) ls)
     = filter is_track_line ls"
  by (induction ls) auto

lemma parse_toc_no_tracks:
  "filter is_track_line ls = [] \<Longrightarrow> parse_toc ls = Inl NoAudioTracks"
  by (simp add: parse_toc_def)

lemma parse_toc_ok:
  assumes "filter is_track_line ls = tls" and "tls \<noteq> []"
    and "\<forall>l\<in>set tls. 4 \<le> length (py_split l)"
    and "py_int (py_split (hd tls) ! 3) = Some s"
    and "total_sectors ls = Inr v"
  shows "parse_toc ls =
     Inr \<lparr>track_count = int (length tls), leadout = s + v,
          offsets = map (\<lambda>l. py_split l ! 3) tls\<rparr>"
proof -
  have f: "fourth_fields tls = Inr (map (\<lambda>l. py_split l ! 3) tls)"
    using assms(3) by (rule fourth_fields_ok)
  have "hd tls \<in> set tls" using assms(2) by simp
  then have "4 \<le> length (py_split (hd tls))" using assms(3) by blast
  then have h: "field (hd tls) 3 = Inr (py_split (hd tls) ! 3)"
    by (simp add: field_def)
  show ?thesis
    using assms(1,2,4,5) f h by (simp add: parse_toc_def int_of_field_def)
qed

lemma parse_toc_offsets:
  "parse_toc ls = Inr t \<Longrightarrow>
     offsets t = map (\<lambda>l. py_split l ! 3) (filter is_track_line ls) \<and>
     track_count t = int (length (filter is_track_line ls))"
  by (auto simp: parse_toc_def Let_def split: if_splits sum.splits dest: fourth_fields_Inr)

lemma parse_toc_filter:
  "parse_toc (filter (\<lambda>l. is_track_line l \<or> is_total_line l) ls) = parse_toc ls"
  unfolding parse_toc_def track_lines_filter total_sectors_filter by (rule refl)

section \<open>Evaluating the parser on a given text\<close>

lemmas toc_eval =
  read_toc_def read_toc_str_def parse_toc_def toc_str_def is_track_line_def is_total_line_def
  field_def int_of_field_def py_startswith_def py_endswith_def py_int_def py_int_strip_def py_int_isspace_def py_strip_def
  py_rstrip_def py_lstrip_def py_isspace_def py_islinebreak_def py_isdigit_def code_point_def
  digits_value_def digit_val_def after_break_def py_str_int_def digit_char_def

section \<open>The parser's two line tests, by the first token\<close>

lemma take_takeWhile_prefix:
  "\<forall>x\<in>set p. P x \<Longrightarrow> (take (length p) (takeWhile P s) = p) = (take (length p) s = p)"
proof (induction p arbitrary: s)
  case Nil
  then show ?case by simp
next
  case (Cons a p)
  then show ?case by (cases s) auto
qed

lemma py_strip_hd_nonspace: "py_strip l = c # cs \<Longrightarrow> \<not> py_isspace c"
proof -
  assume a: "py_strip l = c # cs"
  let ?x = "py_lstrip l"
  have "?x = py_rstrip ?x @ rev (takeWhile py_isspace (rev ?x))"
    by (rule py_rstrip_decomp)
  with a have x: "?x = c # (cs @ rev (takeWhile py_isspace (rev ?x)))"
    by (simp add: py_strip_def)
  then obtain r where r: "dropWhile py_isspace l = c # r"
    unfolding py_lstrip_def by blast
  then have "dropWhile py_isspace l \<noteq> []" by simp
  then have "\<not> py_isspace (hd (dropWhile py_isspace l))" by (rule hd_dropWhile)
  with r show "\<not> py_isspace c" by simp
qed

lemma total_keyword_nonspace: "\<forall>x\<in>set ''TOTAL''. \<not> py_isspace x"
  by (simp add: py_isspace_def code_point_def)

lemma is_total_line_iff:
  "is_total_line l \<longleftrightarrow> (\<exists>t ts. py_split l = t # ts \<and> take 5 t = ''TOTAL'')"
proof (cases "py_strip l")
  case Nil
  then have "py_split (py_strip l) = []" by simp
  then have "py_split l = []" by (simp only: py_split_strip)
  with Nil show ?thesis by (simp add: is_total_line_def py_startswith_def)
next
  case (Cons c cs)
  then have c: "\<not> py_isspace c" by (rule py_strip_hd_nonspace)
  have "py_split l = py_split (c # cs)"
    using py_split_strip [of l] Cons by simp
  with c have s: "py_split l =
     (c # takeWhile (\<lambda>x. \<not> py_isspace x) cs) # py_split (dropWhile (\<lambda>x. \<not> py_isspace x) cs)"
    by simp
  have t: "takeWhile (\<lambda>x. \<not> py_isspace x) (c # cs) = c # takeWhile (\<lambda>x. \<not> py_isspace x) cs"
    using c by simp
  have len: "length ''TOTAL'' = (5::nat)" by simp
  have e: "(take 5 (c # takeWhile (\<lambda>x. \<not> py_isspace x) cs) = ''TOTAL'')
      = (take 5 (c # cs) = ''TOTAL'')"
    using take_takeWhile_prefix [OF total_keyword_nonspace, of "c # cs"] unfolding len t .
  have A: "is_total_line l = (take 5 (c # cs) = ''TOTAL'')"
    unfolding is_total_line_def py_startswith_def len Cons ..
  have B: "(\<exists>t ts. py_split l = t # ts \<and> take 5 t = ''TOTAL'')
      = (take 5 (c # takeWhile (\<lambda>x. \<not> py_isspace x) cs) = ''TOTAL'')"
    unfolding s by blast
  show ?thesis unfolding A B e ..
qed

lemma is_track_line_dot_token: "is_track_line = dot_token_line"
  by (rule ext) (auto simp: is_track_line_iff dot_token_line_def split: list.splits)

lemma is_total_line_total_token: "is_total_line = total_token_line"
  by (rule ext) (auto simp: is_total_line_iff total_token_line_def split: list.splits)

lemma fourth_fields_fail:
  "\<exists>l\<in>set ls. length (py_split l) < 4 \<Longrightarrow> fourth_fields ls = Inl IndexError"
proof (induction ls)
  case Nil
  then show ?case by simp
next
  case (Cons a ls)
  show ?case
  proof (cases "length (py_split a) < 4")
    case True
    then show ?thesis by (simp add: field_def)
  next
    case False
    with Cons.prems have "\<exists>l\<in>set ls. length (py_split l) < 4" by auto
    then have "fourth_fields ls = Inl IndexError" by (rule Cons.IH)
    with False show ?thesis by (simp add: field_def)
  qed
qed

lemma parse_toc_short_line:
  "\<exists>l\<in>set (filter is_track_line ls). length (py_split l) < 4 \<Longrightarrow>
     parse_toc ls = Inl IndexError"
proof -
  assume a: "\<exists>l\<in>set (filter is_track_line ls). length (py_split l) < 4"
  then have f: "fourth_fields (filter is_track_line ls) = Inl IndexError"
    by (rule fourth_fields_fail)
  from a obtain l where "l \<in> set (filter is_track_line ls)" by blast
  then have "filter is_track_line ls \<noteq> []" by (cases "filter is_track_line ls") simp_all
  with f show ?thesis by (simp add: parse_toc_def)
qed

lemma parse_toc_bad_first:
  assumes "filter is_track_line ls = tls" and "tls \<noteq> []"
    and "\<forall>l\<in>set tls. 4 \<le> length (py_split l)"
    and "py_int (py_split (hd tls) ! 3) = None"
  shows "parse_toc ls = Inl (ValueError (py_split (hd tls) ! 3))"
proof -
  have f: "fourth_fields tls = Inr (map (\<lambda>l. py_split l ! 3) tls)"
    using assms(3) by (rule fourth_fields_ok)
  have "hd tls \<in> set tls" using assms(2) by simp
  then have "4 \<le> length (py_split (hd tls))" using assms(3) by blast
  then have h: "field (hd tls) 3 = Inr (py_split (hd tls) ! 3)"
    by (simp add: field_def)
  show ?thesis
    using assms(1,2,4) f h by (simp add: parse_toc_def int_of_field_def)
qed

section \<open>The TOC read from the scanner's text\<close>

text \<open>
  Claim C1, as the code has it. Call track lines the lines whose first
  whitespace-delimited token ends in \<open>.\<close> (numeric label or not), and TOTAL line the first
  line whose first token begins with \<open>TOTAL\<close>. Take a text with \<open>N \<ge> 1\<close> track lines that
  all have at least four fields, whose first track line has an integer in its 4th field,
  and whose TOTAL line has an integer in its 2nd field. Then the parser returns the TOC
  whose track count is \<open>N\<close>, whose offsets are the 4th fields of the track lines in order,
  and whose leadout is the first track's start sector plus the TOTAL line's sector count.
  All other lines are ignored, wherever they stand and however the lines are indented.
\<close>

theorem read_toc_of_valid_text:
  assumes "filter dot_token_line (py_splitlines txt) = tls" and "tls \<noteq> []"
    and "\<forall>l\<in>set tls. 4 \<le> length (py_split l)"
    and "py_int (py_split (hd tls) ! 3) = Some first_sector"
    and "find total_token_line (py_splitlines txt) = Some tline"
    and "2 \<le> length (py_split tline)"
    and "py_int (py_split tline ! 1) = Some total_count"
  shows "read_toc txt =
     Inr \<lparr>track_count = int (length tls), leadout = first_sector + total_count,
          offsets = map (\<lambda>l. py_split l ! 3) tls\<rparr>"
proof -
  have "find is_total_line (py_splitlines txt) = Some tline"
    using assms(5) by (simp only: is_total_line_total_token)
  then have t: "total_sectors (py_splitlines txt) = Inr total_count"
    using assms(6,7) by (rule total_sectors_first)
  have "filter is_track_line (py_splitlines txt) = tls"
    using assms(1) by (simp only: is_track_line_dot_token)
  then show ?thesis
    using assms(2,3,4) t unfolding read_toc_def by (rule parse_toc_ok)
qed

theorem read_toc_of_valid_text_witness:
  "read_toc ''Table of contents:\<newline>  1. 21000 [4:40] 150 [0:02]\<newline>  2. 21000 [4:40] 21150 [4:42]\<newline>  TOTAL 42000 [9:20]\<newline>''
     = Inr \<lparr>track_count = 2, leadout = 42150, offsets = [''150'', ''21150'']\<rparr>"
proof -
  let ?txt = "''Table of contents:\<newline>  1. 21000 [4:40] 150 [0:02]\<newline>  2. 21000 [4:40] 21150 [4:42]\<newline>  TOTAL 42000 [9:20]\<newline>''"
  let ?tls = "[''  1. 21000 [4:40] 150 [0:02]'', ''  2. 21000 [4:40] 21150 [4:42]'']"
  have ls: "py_splitlines ?txt =
      [''Table of contents:'', ''  1. 21000 [4:40] 150 [0:02]'',
       ''  2. 21000 [4:40] 21150 [4:42]'', ''  TOTAL 42000 [9:20]'']"
    by (simp add: toc_eval)
  have h1: "filter dot_token_line (py_splitlines ?txt) = ?tls"
    unfolding ls by (simp add: dot_token_line_def toc_eval)
  have h2: "?tls \<noteq> []" by simp
  have h3: "\<forall>l\<in>set ?tls. 4 \<le> length (py_split l)" by (simp add: toc_eval)
  have h4: "py_int (py_split (hd ?tls) ! 3) = Some 150" by (simp add: toc_eval)
  have h5: "find total_token_line (py_splitlines ?txt) = Some ''  TOTAL 42000 [9:20]''"
    unfolding ls by (simp add: total_token_line_def toc_eval)
  have h6: "2 \<le> length (py_split ''  TOTAL 42000 [9:20]'')" by (simp add: toc_eval)
  have h7: "py_int (py_split ''  TOTAL 42000 [9:20]'' ! 1) = Some 42000"
    by (simp add: toc_eval)
  have t: "map (\<lambda>l. py_split l ! 3) ?tls = [''150'', ''21150'']" by (simp add: toc_eval)
  show ?thesis
    using read_toc_of_valid_text [OF h1 h2 h3 h4 h5 h6 h7] unfolding t by simp
qed

text \<open>
  The claim as the spec states it, with track lines the lines with a numeric label and
  the TOTAL line the line whose first token is \<open>TOTAL\<close>, fails on these three texts. Each
  has two track lines, with start sectors 150 and 21150, and the line \<open>TOTAL 42000\<close>, so
  the claimed TOC has two tracks and the leadout 42150. A further line \<open>Ready.\<close> makes the
  parser fail; a further line \<open>Done. 1 2 3\<close> in front is counted as a third track and
  moves the leadout; a line \<open>TOTALLY 7 x\<close> in front of the TOTAL line is read in its place.
\<close>

theorem stray_line_counterexample:
  "filter spec_track_line (py_splitlines ''1. 21000 [4:40] 150 [0:02]\<newline>2. 21000 [4:40] 21150 [4:42]\<newline>TOTAL 42000 [9:20]\<newline>Ready.\<newline>'')
     = [''1. 21000 [4:40] 150 [0:02]'', ''2. 21000 [4:40] 21150 [4:42]''] \<and>
   filter spec_total_line (py_splitlines ''1. 21000 [4:40] 150 [0:02]\<newline>2. 21000 [4:40] 21150 [4:42]\<newline>TOTAL 42000 [9:20]\<newline>Ready.\<newline>'')
     = [''TOTAL 42000 [9:20]''] \<and>
   read_toc ''1. 21000 [4:40] 150 [0:02]\<newline>2. 21000 [4:40] 21150 [4:42]\<newline>TOTAL 42000 [9:20]\<newline>Ready.\<newline>''
     = Inl IndexError \<and>
   filter spec_track_line (py_splitlines ''Done. 1 2 3\<newline>1. 21000 [4:40] 150 [0:02]\<newline>2. 21000 [4:40] 21150 [4:42]\<newline>TOTAL 42000 [9:20]\<newline>'')
     = [''1. 21000 [4:40] 150 [0:02]'', ''2. 21000 [4:40] 21150 [4:42]''] \<and>
   filter spec_total_line (py_splitlines ''Done. 1 2 3\<newline>1. 21000 [4:40] 150 [0:02]\<newline>2. 21000 [4:40] 21150 [4:42]\<newline>TOTAL 42000 [9:20]\<newline>'')
     = [''TOTAL 42000 [9:20]''] \<and>
   read_toc ''Done. 1 2 3\<newline>1. 21000 [4:40] 150 [0:02]\<newline>2. 21000 [4:40] 21150 [4:42]\<newline>TOTAL 42000 [9:20]\<newline>''
     = Inr \<lparr>track_count = 3, leadout = 42003, offsets = [''3'', ''150'', ''21150'']\<rparr> \<and>
   filter spec_track_line (py_splitlines ''1. 21000 [4:40] 150 [0:02]\<newline>2. 21000 [4:40] 21150 [4:42]\<newline>TOTALLY 7 x\<newline>TOTAL 42000 [9:20]\<newline>'')
     = [''1. 21000 [4:40] 150 [0:02]'', ''2. 21000 [4:40] 21150 [4:42]''] \<and>
   filter spec_total_line (py_splitlines ''1. 21000 [4:40] 150 [0:02]\<newline>2. 21000 [4:40] 21150 [4:42]\<newline>TOTALLY 7 x\<newline>TOTAL 42000 [9:20]\<newline>'')
     = [''TOTAL 42000 [9:20]''] \<and>
   read_toc ''1. 21000 [4:40] 150 [0:02]\<newline>2. 21000 [4:40] 21150 [4:42]\<newline>TOTALLY 7 x\<newline>TOTAL 42000 [9:20]\<newline>''
     = Inr \<lparr>track_count = 2, leadout = 157, offsets = [''150'', ''21150'']\<rparr>"
  by (simp add: spec_track_line_def spec_total_line_def toc_eval)

text \<open>
  Claim C3, as the code has it. Call track lines the lines whose first
  whitespace-delimited token ends in \<open>.\<close> (numeric label or not). A text with no track line
  fails with NoAudioTracks. A text with track lines and no line whose first token begins
  with \<open>TOTAL\<close> does not fail for want of such a line, and no error of that kind exists:
  the total stays 0 and the leadout is the first track's start sector. Such a text fails
  with IndexError when one of its track lines has fewer than four fields, and with
  ValueError when the 4th field of its first track line is no integer; in every other
  case the TOC and the TOC string are produced.
\<close>

theorem read_toc_without_tracks_or_total:
  "(filter dot_token_line (py_splitlines txt) = [] \<longrightarrow> read_toc txt = Inl NoAudioTracks) \<and>
   (filter dot_token_line (py_splitlines txt) = tls \<and> tls \<noteq> [] \<and>
    filter total_token_line (py_splitlines txt) = [] \<longrightarrow>
      read_toc txt =
        (if \<exists>l\<in>set tls. length (py_split l) < 4 then Inl IndexError
         else case py_int (py_split (hd tls) ! 3) of
           None \<Rightarrow> Inl (ValueError (py_split (hd tls) ! 3))
         | Some first_sector \<Rightarrow>
             Inr \<lparr>track_count = int (length tls), leadout = first_sector,
                  offsets = map (\<lambda>l. py_split l ! 3) tls\<rparr>) \<and>
      read_toc_str txt =
        (if \<exists>l\<in>set tls. length (py_split l) < 4 then Inl IndexError
         else case py_int (py_split (hd tls) ! 3) of
           None \<Rightarrow> Inl (ValueError (py_split (hd tls) ! 3))
         | Some first_sector \<Rightarrow>
             Inr (''1+'' @ py_str_int (int (length tls)) @ ''+'' @ py_str_int first_sector
                    @ ''+'' @ py_join ''+'' (map (\<lambda>l. py_split l ! 3) tls))))"
proof (intro conjI impI)
  assume "filter dot_token_line (py_splitlines txt) = []"
  then have "filter is_track_line (py_splitlines txt) = []"
    by (simp only: is_track_line_dot_token)
  then show "read_toc txt = Inl NoAudioTracks"
    unfolding read_toc_def by (rule parse_toc_no_tracks)
next
  assume a: "filter dot_token_line (py_splitlines txt) = tls \<and> tls \<noteq> [] \<and>
    filter total_token_line (py_splitlines txt) = []"
  then have tr: "filter is_track_line (py_splitlines txt) = tls" and ne: "tls \<noteq> []"
    by (simp_all add: is_track_line_dot_token)
  from a have "filter is_total_line (py_splitlines txt) = []"
    by (simp add: is_total_line_total_token)
  then have t: "total_sectors (py_splitlines txt) = Inr 0"
    by (rule total_sectors_none)
  show r: "read_toc txt =
        (if \<exists>l\<in>set tls. length (py_split l) < 4 then Inl IndexError
         else case py_int (py_split (hd tls) ! 3) of
           None \<Rightarrow> Inl (ValueError (py_split (hd tls) ! 3))
         | Some first_sector \<Rightarrow>
             Inr \<lparr>track_count = int (length tls), leadout = first_sector,
                  offsets = map (\<lambda>l. py_split l ! 3) tls\<rparr>)"
  proof (cases "\<exists>l\<in>set tls. length (py_split l) < 4")
    case True
    then have "\<exists>l\<in>set (filter is_track_line (py_splitlines txt)). length (py_split l) < 4"
      by (simp only: tr)
    then have "parse_toc (py_splitlines txt) = Inl IndexError"
      by (rule parse_toc_short_line)
    with True show ?thesis by (simp add: read_toc_def)
  next
    case False
    then have four: "\<forall>l\<in>set tls. 4 \<le> length (py_split l)" by auto
    show ?thesis
    proof (cases "py_int (py_split (hd tls) ! 3)")
      case None
      with tr ne four have "parse_toc (py_splitlines txt) = Inl (ValueError (py_split (hd tls) ! 3))"
        by (rule parse_toc_bad_first)
      with False None show ?thesis by (simp add: read_toc_def)
    next
      case (Some s)
      with tr ne four have "parse_toc (py_splitlines txt) =
         Inr \<lparr>track_count = int (length tls), leadout = s + 0,
              offsets = map (\<lambda>l. py_split l ! 3) tls\<rparr>"
        using t by (rule parse_toc_ok)
      with False Some show ?thesis by (simp add: read_toc_def)
    qed
  qed
  show "read_toc_str txt =
        (if \<exists>l\<in>set tls. length (py_split l) < 4 then Inl IndexError
         else case py_int (py_split (hd tls) ! 3) of
           None \<Rightarrow> Inl (ValueError (py_split (hd tls) ! 3))
         | Some first_sector \<Rightarrow>
             Inr (''1+'' @ py_str_int (int (length tls)) @ ''+'' @ py_str_int first_sector
                    @ ''+'' @ py_join ''+'' (map (\<lambda>l. py_split l ! 3) tls)))"
    unfolding read_toc_str_def r by (simp add: toc_str_def split: option.splits)
qed

theorem read_toc_without_tracks_or_total_witness:
  "read_toc ''no disc here'' = Inl NoAudioTracks \<and>
   read_toc ''  1. 21000 [4:40] 150 [0:02]\<newline>Done'' =
     Inr \<lparr>track_count = 1, leadout = 150, offsets = [''150'']\<rparr> \<and>
   read_toc_str ''  1. 21000 [4:40] 150 [0:02]\<newline>Done'' = Inr ''1+1+150+150'' \<and>
   read_toc ''1. 21000 [4:40]'' = Inl IndexError \<and>
   read_toc ''1. 21000 [4:40] begin'' = Inl (ValueError ''begin'')"
proof -
  have h0: "filter dot_token_line (py_splitlines ''no disc here'') = []"
    by (simp add: dot_token_line_def toc_eval)
  from h0 read_toc_without_tracks_or_total [of "''no disc here''"]
  have a: "read_toc ''no disc here'' = Inl NoAudioTracks" by blast
  let ?l = "''  1. 21000 [4:40] 150 [0:02]''"
  let ?t = "''  1. 21000 [4:40] 150 [0:02]\<newline>Done''"
  have ls: "py_splitlines ?t = [?l, ''Done'']" by (simp add: toc_eval)
  have h1: "filter dot_token_line (py_splitlines ?t) = [?l] \<and> [?l] \<noteq> [] \<and>
    filter total_token_line (py_splitlines ?t) = []"
    unfolding ls by (simp add: dot_token_line_def total_token_line_def toc_eval)
  have e1: "(\<exists>l\<in>set [?l]. length (py_split l) < 4) = False"
    by (simp add: toc_eval)
  have e2: "py_split (hd [?l]) ! 3 = ''150''" by (simp add: toc_eval)
  have e3: "py_int ''150'' = Some 150" by (simp add: toc_eval)
  have e4: "map (\<lambda>l. py_split l ! 3) [?l] = [''150'']" by (simp add: toc_eval)
  have e5: "''1+'' @ py_str_int (int (length [?l])) @ ''+'' @ py_str_int 150
                    @ ''+'' @ py_join ''+'' [''150''] = ''1+1+150+150''"
    by (simp add: toc_eval)
  from h1 read_toc_without_tracks_or_total [of ?t "[?l]"]
  have b: "read_toc ?t = Inr \<lparr>track_count = 1, leadout = 150, offsets = [''150'']\<rparr> \<and>
     read_toc_str ?t = Inr ''1+1+150+150''"
    unfolding e1 e2 e3 e4 using e5 by simp
  let ?s = "''1. 21000 [4:40]''"
  have h2: "filter dot_token_line (py_splitlines ?s) = [?s] \<and> [?s] \<noteq> [] \<and>
    filter total_token_line (py_splitlines ?s) = []"
    by (simp add: dot_token_line_def total_token_line_def toc_eval)
  have f1: "(\<exists>l\<in>set [?s]. length (py_split l) < 4) = True"
    by (simp add: toc_eval)
  from h2 read_toc_without_tracks_or_total [of ?s "[?s]"]
  have c: "read_toc ?s = Inl IndexError"
    unfolding f1 by simp
  let ?v = "''1. 21000 [4:40] begin''"
  have h3: "filter dot_token_line (py_splitlines ?v) = [?v] \<and> [?v] \<noteq> [] \<and>
    filter total_token_line (py_splitlines ?v) = []"
    by (simp add: dot_token_line_def total_token_line_def toc_eval)
  have g1: "(\<exists>l\<in>set [?v]. length (py_split l) < 4) = False"
    by (simp add: toc_eval)
  have g2: "py_split (hd [?v]) ! 3 = ''begin''" by (simp add: toc_eval)
  have g3: "py_int ''begin'' = None" by (simp add: toc_eval)
  from h3 read_toc_without_tracks_or_total [of ?v "[?v]"]
  have d: "read_toc ?v = Inl (ValueError ''begin'')"
    unfolding g1 g2 g3 by simp
  from a b c d show ?thesis by blast
qed

text \<open>
  The claim as the spec states it fails on this text: it has a track line with a numeric
  label and no TOTAL line, and the parser returns a TOC and a TOC string instead of an
  error.
\<close>

theorem missing_total_counterexample:
  "filter is_track_line (py_splitlines ''1. 21000 [4:40] 150 [0:02]'') \<noteq> [] \<and>
   filter is_total_line (py_splitlines ''1. 21000 [4:40] 150 [0:02]'') = [] \<and>
   filter spec_track_line (py_splitlines ''1. 21000 [4:40] 150 [0:02]'') \<noteq> [] \<and>
   filter spec_total_line (py_splitlines ''1. 21000 [4:40] 150 [0:02]'') = [] \<and>
   read_toc ''1. 21000 [4:40] 150 [0:02]'' =
     Inr \<lparr>track_count = 1, leadout = 150, offsets = [''150'']\<rparr> \<and>
   read_toc_str ''1. 21000 [4:40] 150 [0:02]'' = Inr ''1+1+150+150''"
  by (simp add: spec_track_line_def spec_total_line_def toc_eval)

section \<open>Decimal numerals and the TOC string\<close>

lemma digit_cases: "k < 10 \<Longrightarrow> k \<in> {0, 1, 2, 3, 4, 5, 6, 7, 8, 9::nat}"
  by auto

lemma digit_char_props:
  assumes "k < 10"
  shows "digit_val (digit_char k) = k" and "py_isdigit (digit_char k)"
    and "digit_char k \<noteq> CHR ''+''" and "digit_char k \<noteq> CHR ''-''"
  using digit_cases [OF assms]
  by (auto simp: digit_char_def digit_val_def py_isdigit_def code_point_def)

lemma dec_digits: "c \<in> set (dec n) \<Longrightarrow> py_isdigit c \<and> c \<noteq> CHR ''+'' \<and> c \<noteq> CHR ''-''"
proof (induction n rule: dec.induct)
  case (1 n)
  show ?case
  proof (cases "n < 10")
    case True
    with "1.prems" show ?thesis
      by (simp add: dec.simps [of n] digit_char_props)
  next
    case False
    have "n mod 10 < 10" by simp
    with False "1.prems" "1.IH" show ?thesis
      by (auto simp: dec.simps [of n] digit_char_props)
  qed
qed

lemma dec_nonempty: "dec n \<noteq> []"
  by (subst dec.simps) simp

lemma foldl_digits_dec: "foldl (\<lambda>a c. 10 * a + digit_val c) 0 (dec n) = n"
proof (induction n rule: dec.induct)
  case (1 n)
  show ?case
  proof (cases "n < 10")
    case True
    then show ?thesis by (simp add: dec.simps [of n] digit_char_props)
  next
    case False
    have "n mod 10 < 10" by simp
    with False "1.IH" show ?thesis
      by (simp add: dec.simps [of n] digit_char_props)
  qed
qed

lemma digits_value_dec: "digits_value (dec n) = n"
proof -
  have "filter py_isdigit (dec n) = dec n"
    by (rule filter_True) (simp add: dec_digits)
  then show ?thesis by (simp add: digits_value_def foldl_digits_dec)
qed

lemma dec_inj: "dec n = dec m \<Longrightarrow> n = m"
proof -
  assume "dec n = dec m"
  then have "digits_value (dec n) = digits_value (dec m)" by (rule arg_cong)
  then show "n = m" by (simp only: digits_value_dec)
qed

lemma plus_free_dec: "CHR ''+'' \<notin> set (dec n)"
  using dec_digits [of "CHR ''+''" n] by blast

lemma plus_free_str_int: "CHR ''+'' \<notin> set (py_str_int i)"
  by (simp add: py_str_int_def plus_free_dec)

lemma py_str_int_of_nat: "py_str_int (int k) = dec k"
  by (simp add: py_str_int_def)

lemma py_str_int_inj: "py_str_int i = py_str_int j \<Longrightarrow> i = j"
proof -
  assume a: "py_str_int i = py_str_int j"
  have m: "dec k \<noteq> CHR ''-'' # r" "CHR ''-'' # r \<noteq> dec k" for k r
  proof -
    show "dec k \<noteq> CHR ''-'' # r"
    proof
      assume "dec k = CHR ''-'' # r"
      then have "CHR ''-'' \<in> set (dec k)" by simp
      then show False using dec_digits by blast
    qed
    then show "CHR ''-'' # r \<noteq> dec k" by (rule not_sym)
  qed
  show "i = j"
  proof (cases "i < 0")
    case True
    show ?thesis
    proof (cases "j < 0")
      case True
      with \<open>i < 0\<close> a have "dec (nat (- i)) = dec (nat (- j))"
        by (simp add: py_str_int_def)
      then have "nat (- i) = nat (- j)" by (rule dec_inj)
      with True \<open>i < 0\<close> show ?thesis by simp
    next
      case False
      with True a m show ?thesis
        by (simp add: py_str_int_def)
    qed
  next
    case False
    show ?thesis
    proof (cases "j < 0")
      case True
      with False a m show ?thesis
        by (simp add: py_str_int_def)
    next
      case False
      with \<open>\<not> i < 0\<close> a have "dec (nat i) = dec (nat j)"
        by (simp add: py_str_int_def)
      then have "nat i = nat j" by (rule dec_inj)
      with False \<open>\<not> i < 0\<close> show ?thesis by simp
    qed
  qed
qed

lemma cut_at_separator:
  "c \<notin> set x \<Longrightarrow> c \<notin> set x' \<Longrightarrow> x @ c # r = x' @ c # r' \<Longrightarrow> x = x' \<and> r = r'"
proof (induction x arbitrary: x')
  case Nil
  then show ?case by (cases x') auto
next
  case (Cons a x)
  then show ?case by (cases x') auto
qed

lemma py_join_Cons: "ys \<noteq> [] \<Longrightarrow> py_join sep (x # ys) = x @ sep @ py_join sep ys"
  by (cases ys) simp_all

lemma py_join_nonempty: "xs \<noteq> [] \<Longrightarrow> \<forall>x\<in>set xs. x \<noteq> [] \<Longrightarrow> py_join sep xs \<noteq> []"
proof (cases xs)
  case Nil
  assume "xs \<noteq> []"
  with Nil show ?thesis by simp
next
  case (Cons x r)
  assume "\<forall>x\<in>set xs. x \<noteq> []"
  with Cons have "x \<noteq> []" by simp
  with Cons show ?thesis by (cases r) simp_all
qed

lemma py_join_inj:
  assumes "\<forall>x\<in>set xs. x \<noteq> [] \<and> c \<notin> set x" and "\<forall>y\<in>set ys. y \<noteq> [] \<and> c \<notin> set y"
    and "py_join [c] xs = py_join [c] ys"
  shows "xs = ys"
  using assms
proof (induction xs arbitrary: ys)
  case Nil
  show ?case
  proof (cases "ys = []")
    case True
    then show ?thesis by simp
  next
    case False
    with Nil.prems(2) have "py_join [c] ys \<noteq> []" by (intro py_join_nonempty) auto
    with Nil.prems(3) show ?thesis by simp
  qed
next
  case (Cons x xs)
  from Cons.prems(1) have x: "x \<noteq> []" "c \<notin> set x" by auto
  show ?case
  proof (cases ys)
    case Nil
    have "py_join [c] (x # xs) \<noteq> []"
      using Cons.prems(1) by (intro py_join_nonempty) auto
    with Cons.prems(3) Nil show ?thesis by simp
  next
    case (Cons y ys')
    with Cons.prems(2) have y: "y \<noteq> []" "c \<notin> set y" by auto
    show ?thesis
    proof (cases "xs = []")
      case True
      show ?thesis
      proof (cases "ys' = []")
        case True
        with \<open>xs = []\<close> Cons Cons.prems(3) show ?thesis by simp
      next
        case False
        with \<open>xs = []\<close> Cons Cons.prems(3) have "x = y @ c # py_join [c] ys'"
          by (simp add: py_join_Cons)
        then have "c \<in> set x" by simp
        with x show ?thesis by simp
      qed
    next
      case False
      show ?thesis
      proof (cases "ys' = []")
        case True
        with False Cons Cons.prems(3) have "y = x @ c # py_join [c] xs"
          by (simp add: py_join_Cons)
        then have "c \<in> set y" by simp
        with y show ?thesis by simp
      next
        case ne: False
        with False Cons Cons.prems(3)
        have "x @ c # py_join [c] xs = y @ c # py_join [c] ys'"
          by (simp add: py_join_Cons)
        with x(2) y(2) have e: "x = y \<and> py_join [c] xs = py_join [c] ys'"
          by (rule cut_at_separator)
        have "xs = ys'"
        proof (rule Cons.IH)
          show "\<forall>x\<in>set xs. x \<noteq> [] \<and> c \<notin> set x" using Cons.prems(1) by simp
          show "\<forall>y\<in>set ys'. y \<noteq> [] \<and> c \<notin> set y" using Cons.prems(2) Cons by simp
          show "py_join [c] xs = py_join [c] ys'" using e by simp
        qed
        with e Cons show ?thesis by simp
      qed
    qed
  qed
qed

lemma toc_str_join:
  "offs \<noteq> [] \<Longrightarrow>
     ''1+'' @ a @ ''+'' @ b @ ''+'' @ py_join ''+'' offs = py_join ''+'' (''1'' # a # b # offs)"
  by (simp add: py_join_Cons)

lemma toc_str_cut:
  assumes "''1+'' @ py_str_int a @ ''+'' @ py_str_int b @ ''+'' @ j
         = ''1+'' @ py_str_int a' @ ''+'' @ py_str_int b' @ ''+'' @ j'"
  shows "a = a' \<and> b = b' \<and> j = j'"
proof -
  from assms have "py_str_int a @ CHR ''+'' # (py_str_int b @ CHR ''+'' # j)
       = py_str_int a' @ CHR ''+'' # (py_str_int b' @ CHR ''+'' # j')"
    by simp
  with plus_free_str_int plus_free_str_int
  have 1: "py_str_int a = py_str_int a' \<and>
       py_str_int b @ CHR ''+'' # j = py_str_int b' @ CHR ''+'' # j'"
    by (rule cut_at_separator)
  then have "py_str_int b @ CHR ''+'' # j = py_str_int b' @ CHR ''+'' # j'" by simp
  with plus_free_str_int plus_free_str_int
  have 2: "py_str_int b = py_str_int b' \<and> j = j'"
    by (rule cut_at_separator)
  from 1 have "a = a'" by (simp add: py_str_int_inj)
  moreover from 2 have "b = b'" by (simp add: py_str_int_inj)
  ultimately show ?thesis using 2 by simp
qed

lemma toc_str_inj:
  assumes "\<forall>x\<in>set (offsets t). x \<noteq> [] \<and> CHR ''+'' \<notin> set x"
    and "\<forall>x\<in>set (offsets t'). x \<noteq> [] \<and> CHR ''+'' \<notin> set x"
    and "toc_str t = toc_str t'"
  shows "t = t'"
proof -
  from assms(3) have c: "track_count t = track_count t' \<and> leadout t = leadout t' \<and>
      py_join ''+'' (offsets t) = py_join ''+'' (offsets t')"
    unfolding toc_str_def by (rule toc_str_cut)
  with assms(1,2) have "offsets t = offsets t'"
    by (intro py_join_inj [of _ "CHR ''+''"]) simp_all
  with c show ?thesis by simp
qed

lemma map_dec_inj: "map dec xs = map dec ys \<Longrightarrow> xs = ys"
proof (induction xs arbitrary: ys)
  case Nil
  then show ?case by simp
next
  case (Cons x xs)
  then obtain y ys' where ys: "ys = y # ys'" by (cases ys) auto
  with Cons.prems have "dec x = dec y" and "map dec xs = map dec ys'" by simp_all
  then have "x = y" and "xs = ys'" by (auto dest: dec_inj Cons.IH)
  with ys show ?case by simp
qed

lemma dec_tokens: "\<forall>x\<in>set (map dec starts). x \<noteq> [] \<and> CHR ''+'' \<notin> set x"
  by (simp add: dec_nonempty plus_free_dec)

text \<open>
  Claim C2, as the code has it. The TOC string is the numerals of 1, of the track count
  and of the leadout, and then the offsets, joined by \<open>+\<close>, where an offset is the 4th
  field of its track line as the scanner printed it. For a disc with start sectors
  \<open>starts\<close> (at least one) that the scanner prints as plain decimal numerals, this is the
  string the spec describes. The rendering is injective on TOCs whose offsets are
  non-empty tokens without \<open>+\<close>: two such TOCs with equal TOC strings are the same TOC;
  so two discs with equal TOC strings have the same track count, the same leadout and the
  same start sectors.
\<close>

theorem fingerprint_format_and_injectivity:
  "(offsets t \<noteq> [] \<longrightarrow>
      toc_str t =
        py_join ''+'' (''1'' # py_str_int (track_count t) # py_str_int (leadout t) # offsets t)) \<and>
   ((\<forall>x\<in>set (offsets t). x \<noteq> [] \<and> CHR ''+'' \<notin> set x) \<and>
    (\<forall>x\<in>set (offsets t'). x \<noteq> [] \<and> CHR ''+'' \<notin> set x) \<and>
    toc_str t = toc_str t' \<longrightarrow> t = t') \<and>
   (starts \<noteq> [] \<longrightarrow> toc_str (disc_toc n lo starts) = spec_fingerprint n lo starts) \<and>
   (toc_str (disc_toc n lo starts) = toc_str (disc_toc n' lo' starts') \<longrightarrow>
      n = n' \<and> lo = lo' \<and> starts = starts')"
proof (intro conjI impI)
  assume "offsets t \<noteq> []"
  then show "toc_str t =
      py_join ''+'' (''1'' # py_str_int (track_count t) # py_str_int (leadout t) # offsets t)"
    unfolding toc_str_def by (rule toc_str_join)
next
  assume "(\<forall>x\<in>set (offsets t). x \<noteq> [] \<and> CHR ''+'' \<notin> set x) \<and>
    (\<forall>x\<in>set (offsets t'). x \<noteq> [] \<and> CHR ''+'' \<notin> set x) \<and> toc_str t = toc_str t'"
  then show "t = t'" by (intro toc_str_inj) simp_all
next
  assume s: "starts \<noteq> []"
  have m: "map (py_str_int \<circ> int) starts = map dec starts"
    by (simp add: py_str_int_of_nat)
  have one: "py_str_int 1 = ''1''" by (simp add: py_str_int_def)
  from s have "map dec starts \<noteq> []" by simp
  then have "''1+'' @ py_str_int n @ ''+'' @ py_str_int lo @ ''+'' @ py_join ''+'' (map dec starts)
      = py_join ''+'' (''1'' # py_str_int n # py_str_int lo # map dec starts)"
    by (rule toc_str_join)
  then show "toc_str (disc_toc n lo starts) = spec_fingerprint n lo starts"
    by (simp add: toc_str_def disc_toc_def spec_fingerprint_def m one)
next
  assume e: "toc_str (disc_toc n lo starts) = toc_str (disc_toc n' lo' starts')"
  have "disc_toc n lo starts = disc_toc n' lo' starts'"
  proof (rule toc_str_inj)
    show "\<forall>x\<in>set (offsets (disc_toc n lo starts)). x \<noteq> [] \<and> CHR ''+'' \<notin> set x"
      using dec_tokens [of starts] by (simp add: disc_toc_def)
    show "\<forall>x\<in>set (offsets (disc_toc n' lo' starts')). x \<noteq> [] \<and> CHR ''+'' \<notin> set x"
      using dec_tokens [of starts'] by (simp add: disc_toc_def)
    show "toc_str (disc_toc n lo starts) = toc_str (disc_toc n' lo' starts')" by (rule e)
  qed
  then have "n = n'" and "lo = lo'" and "map dec starts = map dec starts'"
    by (simp_all add: disc_toc_def)
  then show "n = n'" and "lo = lo'" and "starts = starts'"
    by (auto dest: map_dec_inj)
qed

theorem fingerprint_format_and_injectivity_witness:
  "toc_str \<lparr>track_count = 2, leadout = 42000, offsets = [''0'', ''21000'']\<rparr>
     = ''1+2+42000+0+21000'' \<and>
   disc_toc 2 42000 [0, 21000] = \<lparr>track_count = 2, leadout = 42000, offsets = [''0'', ''21000'']\<rparr> \<and>
   spec_fingerprint 2 42000 [0, 21000] = ''1+2+42000+0+21000'' \<and>
   toc_str (disc_toc 2 42000 [0, 21000]) = spec_fingerprint 2 42000 [0, 21000]"
proof -
  let ?t = "\<lparr>track_count = 2, leadout = 42000, offsets = [''0'', ''21000'']\<rparr>"
  have h1: "offsets ?t \<noteq> []" by simp
  have h2: "(\<forall>x\<in>set (offsets ?t). x \<noteq> [] \<and> CHR ''+'' \<notin> set x) \<and>
    (\<forall>x\<in>set (offsets ?t). x \<noteq> [] \<and> CHR ''+'' \<notin> set x) \<and> toc_str ?t = toc_str ?t"
    by simp
  have h3: "[0, 21000::nat] \<noteq> []" by simp
  have j: "py_join ''+'' (''1'' # py_str_int (track_count ?t) # py_str_int (leadout ?t) # offsets ?t)
      = ''1+2+42000+0+21000''"
    by (simp add: py_str_int_def digit_char_def)
  have d: "disc_toc 2 42000 [0, 21000] = ?t"
    by (simp add: disc_toc_def digit_char_def)
  have s: "spec_fingerprint 2 42000 [0, 21000] = ''1+2+42000+0+21000''"
    by (simp add: spec_fingerprint_def py_str_int_def digit_char_def)
  note inst = fingerprint_format_and_injectivity
    [of ?t ?t "[0, 21000]" 2 42000 2 42000 "[0, 21000]"]
  from inst h1 have a: "toc_str ?t =
      py_join ''+'' (''1'' # py_str_int (track_count ?t) # py_str_int (leadout ?t) # offsets ?t)"
    by blast
  from inst h3 have b: "toc_str (disc_toc 2 42000 [0, 21000]) = spec_fingerprint 2 42000 [0, 21000]"
    by blast
  from a j have "toc_str ?t = ''1+2+42000+0+21000''" by (rule trans)
  with d s b show ?thesis by blast
qed

text \<open>
  The claim as the spec states it fails on these texts. The start sector of the first text
  is 150 and its leadout is 155, and the TOC string holds the token \<open>0150\<close> as the scanner
  printed it, where the stated format has the number 150. The next two texts give TOCs
  with different offsets and the same TOC string.
\<close>

theorem raw_offset_counterexample:
  "read_toc ''1. a b 0150\<newline>TOTAL 5'' =
     Inr \<lparr>track_count = 1, leadout = 155, offsets = [''0150'']\<rparr> \<and>
   py_int ''0150'' = Some 150 \<and>
   read_toc_str ''1. a b 0150\<newline>TOTAL 5'' = Inr ''1+1+155+0150'' \<and>
   spec_fingerprint 1 155 [150] = ''1+1+155+150'' \<and>
   read_toc ''1. a b 1\<newline>2. a b 2+3\<newline>3. a b 4\<newline>TOTAL 9'' =
     Inr \<lparr>track_count = 3, leadout = 10, offsets = [''1'', ''2+3'', ''4'']\<rparr> \<and>
   read_toc ''1. a b 1\<newline>2. a b 2\<newline>3. a b 3+4\<newline>TOTAL 9'' =
     Inr \<lparr>track_count = 3, leadout = 10, offsets = [''1'', ''2'', ''3+4'']\<rparr> \<and>
   read_toc_str ''1. a b 1\<newline>2. a b 2+3\<newline>3. a b 4\<newline>TOTAL 9'' = Inr ''1+3+10+1+2+3+4'' \<and>
   read_toc_str ''1. a b 1\<newline>2. a b 2\<newline>3. a b 3+4\<newline>TOTAL 9'' = Inr ''1+3+10+1+2+3+4''"
  by (simp add: spec_fingerprint_def toc_eval)

text \<open>
  Claim C6, as the code has it. A line is a track line exactly when it has a first
  whitespace-delimited token and that token ends in \<open>.\<close>, whether or not the rest of the
  token is a number; so every line the spec calls a track line is one. The offsets of a
  parsed TOC are the 4th fields of the track lines in order. Lines that are neither
  track lines nor start with TOTAL can stand anywhere: leaving them out does not change
  the result.
\<close>

theorem track_lines_and_other_lines:
  "(is_track_line l \<longleftrightarrow> (\<exists>t ts. py_split l = t # ts \<and> last t = CHR ''.'')) \<and>
   (spec_track_line l \<longrightarrow> is_track_line l) \<and>
   (read_toc txt = Inr t \<longrightarrow>
      offsets t = map (\<lambda>l. py_split l ! 3) (filter is_track_line (py_splitlines txt))) \<and>
   read_toc txt =
     parse_toc (filter (\<lambda>l. is_track_line l \<or> is_total_line l) (py_splitlines txt))"
proof (intro conjI impI)
  show "is_track_line l \<longleftrightarrow> (\<exists>t ts. py_split l = t # ts \<and> last t = CHR ''.'')"
    by (rule is_track_line_iff)
next
  assume "spec_track_line l"
  then show "is_track_line l"
    by (auto simp: spec_track_line_def is_track_line_iff split: list.splits)
next
  assume "read_toc txt = Inr t"
  then show "offsets t = map (\<lambda>l. py_split l ! 3) (filter is_track_line (py_splitlines txt))"
    unfolding read_toc_def by (simp add: parse_toc_offsets)
next
  show "read_toc txt =
     parse_toc (filter (\<lambda>l. is_track_line l \<or> is_total_line l) (py_splitlines txt))"
    unfolding read_toc_def by (simp only: parse_toc_filter)
qed

theorem track_lines_and_other_lines_witness:
  "is_track_line ''7. a b 99'' \<and>
   offsets \<lparr>track_count = 1, leadout = 104, offsets = [''99'']\<rparr> =
     map (\<lambda>l. py_split l ! 3)
       (filter is_track_line (py_splitlines ''junk\<newline>7. a b 99\<newline>TOTAL 5\<newline>more junk''))"
proof -
  let ?txt = "''junk\<newline>7. a b 99\<newline>TOTAL 5\<newline>more junk''"
  have s: "spec_track_line ''7. a b 99''"
    by (simp add: spec_track_line_def toc_eval)
  have r: "read_toc ?txt = Inr \<lparr>track_count = 1, leadout = 104, offsets = [''99'']\<rparr>"
    by (simp add: toc_eval)
  from s track_lines_and_other_lines [of "''7. a b 99''"]
  have a: "is_track_line ''7. a b 99''" by blast
  from r track_lines_and_other_lines
    [of _ ?txt "\<lparr>track_count = 1, leadout = 104, offsets = [''99'']\<rparr>"]
  have b: "offsets \<lparr>track_count = 1, leadout = 104, offsets = [''99'']\<rparr> =
     map (\<lambda>l. py_split l ! 3) (filter is_track_line (py_splitlines ?txt))" by blast
  from a b show ?thesis by blast
qed

text \<open>
  The claim as the spec states it fails twice. The line \<open>Done. 1 2 3\<close> has no numeric
  label, and is counted as a track. The line \<open>TOTALS\<close> is no track line, and makes the
  parse fail where the same text without it succeeds.
\<close>

theorem track_line_counterexample:
  "\<not> spec_track_line ''Done. 1 2 3'' \<and> is_track_line ''Done. 1 2 3'' \<and>
   read_toc ''Done. 1 2 3'' = Inr \<lparr>track_count = 1, leadout = 3, offsets = [''3'']\<rparr> \<and>
   \<not> is_track_line ''TOTALS'' \<and>
   read_toc ''1. a b 7\<newline>TOTALS'' = Inl IndexError \<and>
   read_toc ''1. a b 7'' = Inr \<lparr>track_count = 1, leadout = 7, offsets = [''7'']\<rparr>"
  by (simp add: spec_track_line_def toc_eval)

section \<open>The lookup response with no release\<close>

lemma has_key_nonempty: "has_key d k \<Longrightarrow> d \<noteq> []"
  by (auto simp: has_key_def)

text \<open>
  Claim C7. A response with an empty \<open>releases\<close> array and no \<open>cdstub\<close> key makes the
  worker emit the error "No releases found for this disc.", which is shown to the user.
  A response with a \<open>cdstub\<close> key and no release (the \<open>releases\<close> key missing, or its
  array empty) passes the worker, and \<open>lookup_finished\<close> then shows its own error, which
  asks for manual entry; no release is offered for choice or confirmation. The two
  messages differ.
\<close>

theorem no_release_is_an_error:
  "(map_of data ''releases'' = Some (JArr []) \<and> map_of data ''cdstub'' = None \<longrightarrow>
      handle_response data = SigError msg_no_releases \<and>
      lookup_outcome data = ErrorDialog msg_no_releases) \<and>
   (map_of data ''cdstub'' \<noteq> None \<and>
      (map_of data ''releases'' = None \<or> map_of data ''releases'' = Some (JArr [])) \<longrightarrow>
      handle_response data = SigFinished data \<and>
      lookup_outcome data = ErrorDialog
        msg_cdstub) \<and>
   msg_cdstub
      \<noteq> msg_no_releases"
proof (intro conjI impI)
  assume a: "map_of data ''releases'' = Some (JArr []) \<and> map_of data ''cdstub'' = None"
  then show r: "handle_response data = SigError msg_no_releases"
    by (simp add: handle_response_def key_truthy_def has_key_def)
  then show "lookup_outcome data = ErrorDialog msg_no_releases"
    by (simp add: lookup_outcome_def)
next
  assume a: "map_of data ''cdstub'' \<noteq> None \<and>
      (map_of data ''releases'' = None \<or> map_of data ''releases'' = Some (JArr []))"
  then have k: "has_key data ''cdstub''" by (simp add: has_key_def)
  then have ne: "data \<noteq> []" by (rule has_key_nonempty)
  from k show r: "handle_response data = SigFinished data"
    by (simp add: handle_response_def)
  from a have "\<not> key_truthy data ''releases''"
    by (auto simp: key_truthy_def)
  with a k ne r show "lookup_outcome data = ErrorDialog
        msg_cdstub"
    by (auto simp: lookup_outcome_def lookup_finished_def)
next
  show "msg_cdstub
      \<noteq> msg_no_releases"
    by (simp add: msg_cdstub_def msg_no_releases_def)
qed

theorem no_release_is_an_error_witness:
  "lookup_outcome [(''releases'', JArr [])] = ErrorDialog msg_no_releases \<and>
   lookup_outcome [(''id'', JStr ''x''), (''cdstub'', JObj [(''title'', JStr ''t'')])] =
     ErrorDialog
       msg_cdstub"
proof -
  have a: "map_of [(''releases'', JArr [])] ''releases'' = Some (JArr []) \<and>
           map_of [(''releases'', JArr [])] ''cdstub'' = None"
    by simp
  let ?d = "[(''id'', JStr ''x''), (''cdstub'', JObj [(''title'', JStr ''t'')])]"
  have b: "map_of ?d ''cdstub'' \<noteq> None \<and>
      (map_of ?d ''releases'' = None \<or> map_of ?d ''releases'' = Some (JArr []))"
    by simp
  from a b no_release_is_an_error [of "[(''releases'', JArr [])]"]
    no_release_is_an_error [of ?d]
  show ?thesis by blast
qed

section \<open>Evaluating the rip job on given inputs\<close>

lemma scale_up_step:
  "a \<noteq> 0 \<Longrightarrow> b \<noteq> 0 \<Longrightarrow> a < 4503599627370496 * b \<Longrightarrow>
     scale_up a b e = scale_up (2 * a) b (e - 1)"
  by (subst scale_up.simps) simp

lemma scale_up_stop: "4503599627370496 * b \<le> a \<Longrightarrow> scale_up a b e = (a, b, e)"
  by (subst scale_up.simps) simp

lemma scale_down_step:
  "b \<noteq> 0 \<Longrightarrow> 9007199254740992 * b \<le> a \<Longrightarrow> scale_down a b e = scale_down a (2 * b) (e + 1)"
  by (subst scale_down.simps) simp

lemma scale_down_stop: "a < 9007199254740992 * b \<Longrightarrow> scale_down a b e = (a, b, e)"
  by (subst scale_down.simps) simp

lemmas progress_eval =
  progress_value_def nearest_double_def double_times_def double_to_int_def round_half_even_def
  scale_up_step scale_up_stop scale_down_step scale_down_stop

lemmas path_eval =
  output_filename_def output_path_def base_path_def os_path_join_def path_join2_def
  track_file_def sanitize_filename_def py_format_02d_def py_lower_def py_lower_char_def
  py_isalnum_def py_startswith_def py_endswith_def py_int_def py_int_strip_def
  py_int_isspace_def py_rstrip_def py_isspace_def py_isdigit_def code_point_def
  digits_value_def digit_val_def py_str_int_def digit_char_def

lemmas rip_eval =
  start_rip_def RipWorker_run_def makedirs_raises_def get_encoder_cmd_def flac_cmd_def
  lame_cmd_def oggenc_cmd_def py_insert_def

section \<open>A failing extractor\<close>

lemma rip_tracks_pipe_step:
  assumes "format cfg \<noteq> ''WAV''" and "py_int (number t) = Some k"
    and "enc_result w i = (0, s)"
    and "get_encoder_cmd cfg t c (os_path_join (output_path cfg) [track_file cfg k t]) = cmd"
    and "cmd \<noteq> []"
  shows "filter is_report (rip_tracks cfg w c n i (t # rest))
      = AlbumProgress (progress_value i n) # filter is_report (rip_tracks cfg w c n (i + 1) rest)"
    and "filter is_launch (rip_tracks cfg w c n i (t # rest))
      = StartProcess [''cdparanoia'', ''-q'', ''-d'', device cfg, py_str_int k, ''-'']
        # StartProcess cmd # filter is_launch (rip_tracks cfg w c n (i + 1) rest)"
  using assms by (simp_all add: Let_def)

lemma rip_tracks_wav_fail:
  assumes "format cfg = ''WAV''" and "py_int (number t) = Some k"
    and "wav_result w i = (r, s)" and "r \<noteq> 0"
  shows "filter is_report (rip_tracks cfg w c n i (t # rest))
      = [ErrorSignal (''cdparanoia failed for track '' @ py_str_int k @ '': '' @ s)]"
    and "filter is_launch (rip_tracks cfg w c n i (t # rest))
      = [RunProcess [''cdparanoia'', ''-q'', ''-d'', device cfg, py_str_int k,
           os_path_join (output_path cfg) [track_file cfg k t]]]"
  using assms by (simp_all add: Let_def)

lemma rip_tracks_end:
  "filter is_report (rip_tracks cfg w c n i []) = [Finished]"
  "filter is_launch (rip_tracks cfg w c n i []) = []"
  by simp_all

lemma start_rip_filter:
  assumes "artist cfg \<noteq> []" and "album cfg \<noteq> []" and "tracks cfg \<noteq> []"
    and "kind_of w (output_path cfg) = Directory" and "cover_art cfg = NoPixmap"
  shows "filter is_report (start_rip cfg w)
      = filter is_report (rip_tracks cfg w [] (length (tracks cfg)) 0 (tracks cfg))"
    and "filter is_launch (start_rip cfg w)
      = filter is_launch (rip_tracks cfg w [] (length (tracks cfg)) 0 (tracks cfg))"
  using assms by (simp_all add: start_rip_def RipWorker_run_def makedirs_raises_def Let_def)

lemma rip_tracks_ignores_rip_returncode:
  "rip_tracks cfg (w\<lparr>rip_returncode := f\<rparr>) c n i ts = rip_tracks cfg w c n i ts"
proof (induction ts arbitrary: i)
  case Nil
  show ?case by simp
next
  case (Cons t ts)
  show ?case
  proof (cases "py_int (number t)")
    case None
    then show ?thesis by simp
  next
    case (Some k)
    obtain r s where ws: "wav_result w i = (r, s)" by (cases "wav_result w i")
    obtain r' s' where es: "enc_result w i = (r', s')" by (cases "enc_result w i")
    from Cons [of "i + 1"] Some ws es show ?thesis
      by (simp add: Let_def)
  qed
qed

text \<open>
  Claim C4 at a job of two tracks in the FLAC format, where the extractor \<open>cdparanoia\<close>
  exits with status 1 on the first track and the encoder exits with status 0 on both.
  The worker reports the first track as done, goes on to the second track and finishes;
  no error is emitted. In the WAV format the same exit status of the extractor is
  reported as an error, and the job stops there. For every job, nothing that the worker
  does depends on the exit status of an extractor that feeds an encoder.
\<close>

theorem extractor_failure_unnoticed:
  "rip_returncode
     \<lparr>kind_of = (\<lambda>p. Directory), creatable = (\<lambda>p. False),
      wav_result = (\<lambda>i. (1, ''read error'')),
      rip_returncode = (\<lambda>i. if i = 0 then 1 else 0), enc_result = (\<lambda>i. (0, []))\<rparr> 0 = 1 \<and>
   filter is_report
     (start_rip
        \<lparr>device = ''/dev/sr0'', format = ''FLAC'', save_path = ''/music'', artist = ''A'',
         album = ''B'', year = '''', disc_num = '''', disc_total = '''',
         tracks = [\<lparr>number = ''1'', title = ''One''\<rparr>, \<lparr>number = ''2'', title = ''Two''\<rparr>],
         cover_art = NoPixmap\<rparr>
        \<lparr>kind_of = (\<lambda>p. Directory), creatable = (\<lambda>p. False),
         wav_result = (\<lambda>i. (1, ''read error'')),
         rip_returncode = (\<lambda>i. if i = 0 then 1 else 0), enc_result = (\<lambda>i. (0, []))\<rparr>)
     = [AlbumProgress 50, AlbumProgress 100, Finished] \<and>
   filter is_launch
     (start_rip
        \<lparr>device = ''/dev/sr0'', format = ''FLAC'', save_path = ''/music'', artist = ''A'',
         album = ''B'', year = '''', disc_num = '''', disc_total = '''',
         tracks = [\<lparr>number = ''1'', title = ''One''\<rparr>, \<lparr>number = ''2'', title = ''Two''\<rparr>],
         cover_art = NoPixmap\<rparr>
        \<lparr>kind_of = (\<lambda>p. Directory), creatable = (\<lambda>p. False),
         wav_result = (\<lambda>i. (1, ''read error'')),
         rip_returncode = (\<lambda>i. if i = 0 then 1 else 0), enc_result = (\<lambda>i. (0, []))\<rparr>)
     = [StartProcess [''cdparanoia'', ''-q'', ''-d'', ''/dev/sr0'', ''1'', ''-''],
        StartProcess [''flac'', ''-s'', ''--best'', ''--verify'', ''-T'', ''ARTIST=A'',
          ''-T'', ''ALBUM=B'', ''-T'', ''TITLE=One'', ''-T'', ''TRACKNUMBER=1'', ''-T'', ''DATE='',
          ''-'', ''-o'', ''/music/A/B/01. One.flac''],
        StartProcess [''cdparanoia'', ''-q'', ''-d'', ''/dev/sr0'', ''2'', ''-''],
        StartProcess [''flac'', ''-s'', ''--best'', ''--verify'', ''-T'', ''ARTIST=A'',
          ''-T'', ''ALBUM=B'', ''-T'', ''TITLE=Two'', ''-T'', ''TRACKNUMBER=2'', ''-T'', ''DATE='',
          ''-'', ''-o'', ''/music/A/B/02. Two.flac'']] \<and>
   filter is_report
     (start_rip
        \<lparr>device = ''/dev/sr0'', format = ''WAV'', save_path = ''/music'', artist = ''A'',
         album = ''B'', year = '''', disc_num = '''', disc_total = '''',
         tracks = [\<lparr>number = ''1'', title = ''One''\<rparr>, \<lparr>number = ''2'', title = ''Two''\<rparr>],
         cover_art = NoPixmap\<rparr>
        \<lparr>kind_of = (\<lambda>p. Directory), creatable = (\<lambda>p. False),
         wav_result = (\<lambda>i. (1, ''read error'')),
         rip_returncode = (\<lambda>i. if i = 0 then 1 else 0), enc_result = (\<lambda>i. (0, []))\<rparr>)
     = [ErrorSignal ''cdparanoia failed for track 1: read error''] \<and>
   filter is_launch
     (start_rip
        \<lparr>device = ''/dev/sr0'', format = ''WAV'', save_path = ''/music'', artist = ''A'',
         album = ''B'', year = '''', disc_num = '''', disc_total = '''',
         tracks = [\<lparr>number = ''1'', title = ''One''\<rparr>, \<lparr>number = ''2'', title = ''Two''\<rparr>],
         cover_art = NoPixmap\<rparr>
        \<lparr>kind_of = (\<lambda>p. Directory), creatable = (\<lambda>p. False),
         wav_result = (\<lambda>i. (1, ''read error'')),
         rip_returncode = (\<lambda>i. if i = 0 then 1 else 0), enc_result = (\<lambda>i. (0, []))\<rparr>)
     = [RunProcess [''cdparanoia'', ''-q'', ''-d'', ''/dev/sr0'', ''1'', ''/music/A/B/01. One.wav'']] \<and>
   start_rip cfg (w\<lparr>rip_returncode := f\<rparr>) = start_rip cfg w"
proof -
  let ?t1 = "\<lparr>number = ''1'', title = ''One''\<rparr>" and ?t2 = "\<lparr>number = ''2'', title = ''Two''\<rparr>"
  let ?w = "\<lparr>kind_of = (\<lambda>p. Directory), creatable = (\<lambda>p. False),
      wav_result = (\<lambda>i. (1, ''read error'')),
      rip_returncode = (\<lambda>i. if i = 0 then 1 else 0), enc_result = (\<lambda>i. (0, []))\<rparr>"
  let ?c = "\<lparr>device = ''/dev/sr0'', format = ''FLAC'', save_path = ''/music'', artist = ''A'',
      album = ''B'', year = '''', disc_num = '''', disc_total = '''', tracks = [?t1, ?t2],
      cover_art = NoPixmap\<rparr>"
  let ?v = "\<lparr>device = ''/dev/sr0'', format = ''WAV'', save_path = ''/music'', artist = ''A'',
      album = ''B'', year = '''', disc_num = '''', disc_total = '''', tracks = [?t1, ?t2],
      cover_art = NoPixmap\<rparr>"
  let ?e1 = "[''flac'', ''-s'', ''--best'', ''--verify'', ''-T'', ''ARTIST=A'',
          ''-T'', ''ALBUM=B'', ''-T'', ''TITLE=One'', ''-T'', ''TRACKNUMBER=1'', ''-T'', ''DATE='',
          ''-'', ''-o'', ''/music/A/B/01. One.flac'']"
  let ?e2 = "[''flac'', ''-s'', ''--best'', ''--verify'', ''-T'', ''ARTIST=A'',
          ''-T'', ''ALBUM=B'', ''-T'', ''TITLE=Two'', ''-T'', ''TRACKNUMBER=2'', ''-T'', ''DATE='',
          ''-'', ''-o'', ''/music/A/B/02. Two.flac'']"
  have n: "py_int (number ?t1) = Some 1" "py_int (number ?t2) = Some 2"
    by (simp_all add: path_eval)
  have s: "py_str_int 1 = ''1''" "py_str_int 2 = ''2''"
    by (simp_all add: path_eval)
  have p: "progress_value 0 2 = 50" "progress_value (0 + 1) 2 = 100"
    by (simp_all add: progress_eval)
  have g1: "get_encoder_cmd ?c ?t1 [] (os_path_join (output_path ?c) [track_file ?c 1 ?t1]) = ?e1"
    by (simp add: rip_eval path_eval)
  have g2: "get_encoder_cmd ?c ?t2 [] (os_path_join (output_path ?c) [track_file ?c 2 ?t2]) = ?e2"
    by (simp add: rip_eval path_eval)
  have ow: "os_path_join (output_path ?v) [track_file ?v 1 ?t1] = ''/music/A/B/01. One.wav''"
    by (simp add: path_eval)
  have fc: "format ?c \<noteq> ''WAV''" and fv: "format ?v = ''WAV''" by simp_all
  have en: "enc_result ?w 0 = (0, [])" "enc_result ?w (0 + 1) = (0, [])" by simp_all
  have wv: "wav_result ?w 0 = (1, ''read error'')" by simp
  have ne: "?e1 \<noteq> []" "?e2 \<noteq> []" by simp_all
  have sc: "artist ?c \<noteq> []" "album ?c \<noteq> []" "tracks ?c \<noteq> []"
    "kind_of ?w (output_path ?c) = Directory" "cover_art ?c = NoPixmap" by simp_all
  have sv: "artist ?v \<noteq> []" "album ?v \<noteq> []" "tracks ?v \<noteq> []"
    "kind_of ?w (output_path ?v) = Directory" "cover_art ?v = NoPixmap" by simp_all
  have tc: "tracks ?c = [?t1, ?t2]" "length [?t1, ?t2] = 2" "device ?c = ''/dev/sr0''"
    and tv: "tracks ?v = [?t1, ?t2]" "device ?v = ''/dev/sr0''"
    by simp_all
  have a: "rip_returncode ?w 0 = 1" by simp
  have b: "filter is_report (start_rip ?c ?w) = [AlbumProgress 50, AlbumProgress 100, Finished]"
    unfolding start_rip_filter(1) [OF sc] tc
      rip_tracks_pipe_step(1) [OF fc n(1) en(1) g1 ne(1)]
      rip_tracks_pipe_step(1) [OF fc n(2) en(2) g2 ne(2)]
      rip_tracks_end p ..
  have c: "filter is_launch (start_rip ?c ?w) =
      [StartProcess [''cdparanoia'', ''-q'', ''-d'', ''/dev/sr0'', ''1'', ''-''], StartProcess ?e1,
       StartProcess [''cdparanoia'', ''-q'', ''-d'', ''/dev/sr0'', ''2'', ''-''], StartProcess ?e2]"
    unfolding start_rip_filter(2) [OF sc] tc
      rip_tracks_pipe_step(2) [OF fc n(1) en(1) g1 ne(1)]
      rip_tracks_pipe_step(2) [OF fc n(2) en(2) g2 ne(2)]
      rip_tracks_end s ..
  have one: "(1::int) \<noteq> 0" by simp
  have d: "filter is_report (start_rip ?v ?w) =
      [ErrorSignal ''cdparanoia failed for track 1: read error'']"
    unfolding start_rip_filter(1) [OF sv] tv tc(2) rip_tracks_wav_fail(1) [OF fv n(1) wv one] s
    by simp
  have e: "filter is_launch (start_rip ?v ?w) =
      [RunProcess [''cdparanoia'', ''-q'', ''-d'', ''/dev/sr0'', ''1'', ''/music/A/B/01. One.wav'']]"
    unfolding start_rip_filter(2) [OF sv] tv tc(2) rip_tracks_wav_fail(2) [OF fv n(1) wv one] s ow ..
  have kw: "kind_of (w\<lparr>rip_returncode := f\<rparr>) = kind_of w"
    "creatable (w\<lparr>rip_returncode := f\<rparr>) = creatable w" by simp_all
  have g: "start_rip cfg (w\<lparr>rip_returncode := f\<rparr>) = start_rip cfg w"
    unfolding start_rip_def RipWorker_run_def kw rip_tracks_ignores_rip_returncode ..
  from a b c d e g show ?thesis by blast
qed

section \<open>The progress after 29 of 50 tracks\<close>

text \<open>
  Claim C5 at a job of 50 tracks, after the 29th track (index 28): the exact value of
  \<open>floor (29 / 50 * 100)\<close> is 58, and the worker emits 57, because the double nearest to
  29 / 50 lies below 0.58 and its product with 100 is rounded to a double below 58.
\<close>

theorem progress_after_29_of_50:
  "progress_value 28 50 = 57 \<and> \<lfloor>(29 :: rat) / 50 * 100\<rfloor> = 58 \<and>
   nearest_double 29 50 = (5224175567749775, - 53) \<and>
   double_times (5224175567749775, - 53) 100 = (8162774324609023, - 47)"
  by (simp add: progress_eval)

section \<open>The start of a rip job\<close>

lemma rip_tracks_no_write: "\<forall>e\<in>set (rip_tracks cfg w c n i ts). \<not> is_write e"
proof (induction ts arbitrary: i)
  case Nil
  show ?case by simp
next
  case (Cons t ts)
  show ?case
  proof (cases "py_int (number t)")
    case None
    then show ?thesis by simp
  next
    case (Some k)
    obtain r s where ws: "wav_result w i = (r, s)" by (cases "wav_result w i")
    obtain r' s' where es: "enc_result w i = (r', s')" by (cases "enc_result w i")
    from Cons [of "i + 1"] Some ws es show ?thesis
      by (simp add: Let_def)
  qed
qed

text \<open>
  Claim C8. A job with an empty artist, an empty album or no track only shows the error
  of the check: nothing is written to the file system and no process is started. A job
  that passes the check, and whose directory is there already or can be made, sets the
  status, creates the directory (a directory that is there is no error), saves the cover
  art, when there is a picture, to \<open>cover.jpg\<close> in that directory, and only then works
  through the tracks, which write neither directory nor cover again.
\<close>

theorem start_rip_order:
  "(artist cfg = [] \<or> album cfg = [] \<or> tracks cfg = [] \<longrightarrow>
      start_rip cfg w = [ShowError msg_invalid_job] \<and>
      (\<forall>e\<in>set (start_rip cfg w). \<not> is_write e \<and> \<not> is_launch e)) \<and>
   (artist cfg \<noteq> [] \<and> album cfg \<noteq> [] \<and> tracks cfg \<noteq> [] \<and>
    (kind_of w (output_path cfg) = Directory \<or>
     kind_of w (output_path cfg) = Absent \<and> creatable w (output_path cfg)) \<longrightarrow>
      start_rip cfg w =
        [SetStatus ''Starting rip...'', MakeDirs (output_path cfg)]
          @ (case cover_art cfg of
               Picture img \<Rightarrow> [SaveCover (os_path_join (output_path cfg) [''cover.jpg''])]
             | _ \<Rightarrow> [])
          @ rip_tracks cfg w
              (case cover_art cfg of
                 Picture img \<Rightarrow> os_path_join (output_path cfg) [''cover.jpg'']
               | _ \<Rightarrow> [])
              (length (tracks cfg)) 0 (tracks cfg)) \<and>
   (\<forall>e\<in>set (rip_tracks cfg w c n i ts). \<not> is_write e)"
proof (intro conjI impI)
  assume "artist cfg = [] \<or> album cfg = [] \<or> tracks cfg = []"
  then show "start_rip cfg w = [ShowError msg_invalid_job]"
    and "\<forall>e\<in>set (start_rip cfg w). \<not> is_write e \<and> \<not> is_launch e"
    by (auto simp: start_rip_def)
next
  assume "artist cfg \<noteq> [] \<and> album cfg \<noteq> [] \<and> tracks cfg \<noteq> [] \<and>
    (kind_of w (output_path cfg) = Directory \<or>
     kind_of w (output_path cfg) = Absent \<and> creatable w (output_path cfg))"
  then show "start_rip cfg w =
        [SetStatus ''Starting rip...'', MakeDirs (output_path cfg)]
          @ (case cover_art cfg of
               Picture img \<Rightarrow> [SaveCover (os_path_join (output_path cfg) [''cover.jpg''])]
             | _ \<Rightarrow> [])
          @ rip_tracks cfg w
              (case cover_art cfg of
                 Picture img \<Rightarrow> os_path_join (output_path cfg) [''cover.jpg'']
               | _ \<Rightarrow> [])
              (length (tracks cfg)) 0 (tracks cfg)"
    by (cases "cover_art cfg")
      (auto simp: start_rip_def RipWorker_run_def makedirs_raises_def Let_def)
next
  show "\<forall>e\<in>set (rip_tracks cfg w c n i ts). \<not> is_write e"
    by (rule rip_tracks_no_write)
qed

theorem start_rip_order_witness:
  "start_rip
     \<lparr>device = ''/dev/sr0'', format = ''WAV'', save_path = ''/music'', artist = '''',
      album = ''B'', year = '''', disc_num = '''', disc_total = '''',
      tracks = [\<lparr>number = ''1'', title = ''T''\<rparr>], cover_art = Picture ''img''\<rparr>
     \<lparr>kind_of = (\<lambda>p. Directory), creatable = (\<lambda>p. False), wav_result = (\<lambda>i. (0, [])),
      rip_returncode = (\<lambda>i. 0), enc_result = (\<lambda>i. (0, []))\<rparr>
     = [ShowError msg_invalid_job] \<and>
   start_rip
     \<lparr>device = ''/dev/sr0'', format = ''WAV'', save_path = ''/music'', artist = ''A'',
      album = ''B'', year = '''', disc_num = '''', disc_total = '''',
      tracks = [\<lparr>number = ''1'', title = ''T''\<rparr>], cover_art = Picture ''img''\<rparr>
     \<lparr>kind_of = (\<lambda>p. Directory), creatable = (\<lambda>p. False), wav_result = (\<lambda>i. (0, [])),
      rip_returncode = (\<lambda>i. 0), enc_result = (\<lambda>i. (0, []))\<rparr>
     = [SetStatus ''Starting rip...'', MakeDirs ''/music/A/B'', SaveCover ''/music/A/B/cover.jpg'',
        StatusUpdate (''Ripping Track 1/1: '' @ [CHR 0x27] @ ''T'' @ [CHR 0x27]),
        LogMessage ''Ripping directly to WAV: cdparanoia -q -d /dev/sr0 1 /music/A/B/01. T.wav'',
        RunProcess [''cdparanoia'', ''-q'', ''-d'', ''/dev/sr0'', ''1'', ''/music/A/B/01. T.wav''],
        AlbumProgress 100, Finished]"
proof -
  let ?w = "\<lparr>kind_of = (\<lambda>p. Directory), creatable = (\<lambda>p. False), wav_result = (\<lambda>i. (0, [])),
      rip_returncode = (\<lambda>i. 0), enc_result = (\<lambda>i. (0, []))\<rparr>"
  let ?bad = "\<lparr>device = ''/dev/sr0'', format = ''WAV'', save_path = ''/music'', artist = '''',
      album = ''B'', year = '''', disc_num = '''', disc_total = '''',
      tracks = [\<lparr>number = ''1'', title = ''T''\<rparr>], cover_art = Picture ''img''\<rparr>"
  let ?ok = "\<lparr>device = ''/dev/sr0'', format = ''WAV'', save_path = ''/music'', artist = ''A'',
      album = ''B'', year = '''', disc_num = '''', disc_total = '''',
      tracks = [\<lparr>number = ''1'', title = ''T''\<rparr>], cover_art = Picture ''img''\<rparr>"
  have h1: "artist ?bad = [] \<or> album ?bad = [] \<or> tracks ?bad = []" by simp
  from h1 start_rip_order [of ?bad ?w]
  have a: "start_rip ?bad ?w = [ShowError msg_invalid_job]" by blast
  have o: "output_path ?ok = ''/music/A/B''" by (simp add: path_eval)
  have c: "os_path_join ''/music/A/B'' [''cover.jpg''] = ''/music/A/B/cover.jpg''"
    by (simp add: path_eval)
  have h2: "artist ?ok \<noteq> [] \<and> album ?ok \<noteq> [] \<and> tracks ?ok \<noteq> [] \<and>
    (kind_of ?w (output_path ?ok) = Directory \<or>
     kind_of ?w (output_path ?ok) = Absent \<and> creatable ?w (output_path ?ok))"
    by simp
  have r: "rip_tracks ?ok ?w ''/music/A/B/cover.jpg'' 1 0 [\<lparr>number = ''1'', title = ''T''\<rparr>]
      = [StatusUpdate (''Ripping Track 1/1: '' @ [CHR 0x27] @ ''T'' @ [CHR 0x27]),
        LogMessage ''Ripping directly to WAV: cdparanoia -q -d /dev/sr0 1 /music/A/B/01. T.wav'',
        RunProcess [''cdparanoia'', ''-q'', ''-d'', ''/dev/sr0'', ''1'', ''/music/A/B/01. T.wav''],
        AlbumProgress 100, Finished]"
    by (simp add: Let_def path_eval progress_eval)
  from h2 start_rip_order [of ?ok ?w]
  have "start_rip ?ok ?w =
        [SetStatus ''Starting rip...'', MakeDirs (output_path ?ok)]
          @ (case cover_art ?ok of
               Picture img \<Rightarrow> [SaveCover (os_path_join (output_path ?ok) [''cover.jpg''])]
             | _ \<Rightarrow> [])
          @ rip_tracks ?ok ?w
              (case cover_art ?ok of
                 Picture img \<Rightarrow> os_path_join (output_path ?ok) [''cover.jpg'']
               | _ \<Rightarrow> [])
              (length (tracks ?ok)) 0 (tracks ?ok)"
    by blast
  then have b: "start_rip ?ok ?w =
      [SetStatus ''Starting rip...'', MakeDirs ''/music/A/B'', SaveCover ''/music/A/B/cover.jpg'',
        StatusUpdate (''Ripping Track 1/1: '' @ [CHR 0x27] @ ''T'' @ [CHR 0x27]),
        LogMessage ''Ripping directly to WAV: cdparanoia -q -d /dev/sr0 1 /music/A/B/01. T.wav'',
        RunProcess [''cdparanoia'', ''-q'', ''-d'', ''/dev/sr0'', ''1'', ''/music/A/B/01. T.wav''],
        AlbumProgress 100, Finished]"
    unfolding o c using r by simp
  from a b show ?thesis by blast
qed

section \<open>The output path of a track\<close>

lemma py_endswith_slash: "py_endswith p ''/'' \<longleftrightarrow> p \<noteq> [] \<and> last p = CHR ''/''"
proof (cases "p = []")
  case True
  then show ?thesis by (simp add: py_endswith_def)
next
  case False
  then have "p = butlast p @ [last p]" by simp
  then have "drop (length p - 1) p = drop (length (butlast p)) (butlast p @ [last p])"
    by simp
  then have "drop (length p - 1) p = [last p]" by simp
  with False show ?thesis by (simp add: py_endswith_def)
qed

lemma py_startswith_slash: "py_startswith b ''/'' \<longleftrightarrow> b \<noteq> [] \<and> hd b = CHR ''/''"
  by (cases b) (auto simp: py_startswith_def)

lemma path_join2_plain:
  "path \<noteq> [] \<Longrightarrow> last path \<noteq> CHR ''/'' \<Longrightarrow> b = [] \<or> hd b \<noteq> CHR ''/'' \<Longrightarrow>
     path_join2 path b = path @ ''/'' @ b"
  by (auto simp: path_join2_def py_endswith_slash py_startswith_slash)

lemma set_py_rstrip: "set (py_rstrip s) \<subseteq> set s"
  unfolding py_rstrip_def using set_dropWhileD by fastforce

lemma sanitize_no_slash: "CHR ''/'' \<notin> set (sanitize_filename s)"
proof
  assume "CHR ''/'' \<in> set (sanitize_filename s)"
  then have "CHR ''/'' \<in> set (filter (\<lambda>c. py_isalnum c \<or> c \<in> set [CHR '' '', CHR ''.'', CHR ''_'']) s)"
    unfolding sanitize_filename_def using set_py_rstrip by blast
  then have "py_isalnum CHR ''/'' \<or> CHR ''/'' \<in> set [CHR '' '', CHR ''.'', CHR ''_'']"
    by simp
  then show False by (simp add: py_isalnum_def code_point_def)
qed

lemma sanitize_ends:
  "sanitize_filename s \<noteq> [] \<Longrightarrow>
     hd (sanitize_filename s) \<noteq> CHR ''/'' \<and> last (sanitize_filename s) \<noteq> CHR ''/''"
  using sanitize_no_slash [of s] hd_in_set [of "sanitize_filename s"]
    last_in_set [of "sanitize_filename s"] by metis

lemma py_format_02d_hd: "py_format_02d n \<noteq> [] \<and> hd (py_format_02d n) \<noteq> CHR ''/''"
proof (cases "n < 0")
  case True
  then show ?thesis by (simp add: py_format_02d_def)
next
  case False
  have d: "dec (nat n) \<noteq> []" by (rule dec_nonempty)
  have "hd (dec (nat n)) \<in> set (dec (nat n))" using d by (rule hd_in_set)
  then have "py_isdigit (hd (dec (nat n)))" using dec_digits by blast
  then have h: "hd (dec (nat n)) \<noteq> CHR ''/''"
    by (auto simp: py_isdigit_def code_point_def)
  show ?thesis
  proof (cases "2 - length (dec (nat n))")
    case 0
    with False d h show ?thesis by (simp add: py_format_02d_def)
  next
    case (Suc k)
    with False d show ?thesis by (simp add: py_format_02d_def)
  qed
qed

lemma py_format_02d_pad:
  "py_format_02d n = (if 0 \<le> n \<and> n < 10 then CHR ''0'' # dec (nat n) else py_str_int n)"
proof (cases "n < 0")
  case True
  then show ?thesis by (simp add: py_format_02d_def py_str_int_def)
next
  case False
  show ?thesis
  proof (cases "n < 10")
    case True
    with False have "nat n < 10" by simp
    then have "dec (nat n) = [digit_char (nat n)]" by (simp add: dec.simps [of "nat n"])
    with True False show ?thesis by (simp add: py_format_02d_def)
  next
    case ge: False
    then have "\<not> nat n < 10" by simp
    then have "dec (nat n) = dec (nat n div 10) @ [digit_char (nat n mod 10)]"
      by (simp add: dec.simps [of "nat n"])
    moreover have "dec (nat n div 10) \<noteq> []" by (rule dec_nonempty)
    ultimately have "2 \<le> length (dec (nat n))"
      by (cases "dec (nat n div 10)") simp_all
    with ge False show ?thesis by (simp add: py_format_02d_def py_str_int_def)
  qed
qed

lemma output_path_plain:
  assumes "save_path cfg \<noteq> []" and "last (save_path cfg) \<noteq> CHR ''/''"
    and "sanitize_filename (artist cfg) \<noteq> []" and "sanitize_filename (album cfg) \<noteq> []"
  shows "output_path cfg =
     save_path cfg @ ''/'' @ sanitize_filename (artist cfg) @ ''/'' @ sanitize_filename (album cfg)
       @ (if disc_num cfg = [] then [] else ''/Disc '' @ disc_num cfg)"
proof -
  let ?a = "sanitize_filename (artist cfg)" and ?b = "sanitize_filename (album cfg)"
  have 1: "path_join2 (save_path cfg) ?a = save_path cfg @ ''/'' @ ?a"
    using assms(1,2) sanitize_ends [OF assms(3)] by (intro path_join2_plain) simp_all
  have "last (save_path cfg @ ''/'' @ ?a) \<noteq> CHR ''/''"
    using assms(3) sanitize_ends [OF assms(3)] by simp
  then have 2: "path_join2 (save_path cfg @ ''/'' @ ?a) ?b = (save_path cfg @ ''/'' @ ?a) @ ''/'' @ ?b"
    using sanitize_ends [OF assms(4)] by (intro path_join2_plain) simp_all
  have b: "base_path cfg = save_path cfg @ ''/'' @ ?a @ ''/'' @ ?b"
    using 1 2 by (simp add: base_path_def os_path_join_def)
  have "last (base_path cfg) \<noteq> CHR ''/''"
    unfolding b using assms(4) sanitize_ends [OF assms(4)] by simp
  moreover have "base_path cfg \<noteq> []" unfolding b by simp
  ultimately have "path_join2 (base_path cfg) (''Disc '' @ disc_num cfg)
      = base_path cfg @ ''/'' @ ''Disc '' @ disc_num cfg"
    by (intro path_join2_plain) simp_all
  with b show ?thesis
    by (simp add: output_path_def os_path_join_def)
qed

text \<open>
  Claim C9, as the code has it. Take a job whose root is not empty and does not end in
  \<open>/\<close>, whose sanitized artist and album are not empty and whose disc number, if there is
  one, does not end in \<open>/\<close>, and a track whose number \<open>int\<close> reads as \<open>n\<close>. Then the file of
  the track is root, sanitized artist, sanitized album, \<open>Disc\<close> and the disc number when
  there is one, and the file name, each joined to the next by one \<open>/\<close>; the file name is
  \<open>n\<close> filled with a zero to two digits (a number below 0 or above 9 is its plain
  numeral), a dot and a space, the sanitized title, a dot and the format in lower case.
\<close>

theorem track_output_path:
  assumes "save_path cfg \<noteq> []" and "last (save_path cfg) \<noteq> CHR ''/''"
    and "sanitize_filename (artist cfg) \<noteq> []" and "sanitize_filename (album cfg) \<noteq> []"
    and "disc_num cfg = [] \<or> last (disc_num cfg) \<noteq> CHR ''/''"
    and "py_int (number t) = Some n"
  shows "output_filename cfg t =
     Some (save_path cfg @ ''/'' @ sanitize_filename (artist cfg) @ ''/''
             @ sanitize_filename (album cfg)
             @ (if disc_num cfg = [] then [] else ''/Disc '' @ disc_num cfg)
             @ ''/'' @ py_format_02d n @ ''. '' @ sanitize_filename (title t) @ ''.''
             @ py_lower (format cfg)) \<and>
     py_format_02d n = (if 0 \<le> n \<and> n < 10 then CHR ''0'' # dec (nat n) else py_str_int n)"
proof
  have o: "output_path cfg =
     save_path cfg @ ''/'' @ sanitize_filename (artist cfg) @ ''/'' @ sanitize_filename (album cfg)
       @ (if disc_num cfg = [] then [] else ''/Disc '' @ disc_num cfg)"
    using assms(1,2,3,4) by (rule output_path_plain)
  have ne: "output_path cfg \<noteq> []" unfolding o using assms(1) by simp
  have l: "last (output_path cfg) \<noteq> CHR ''/''"
  proof (cases "disc_num cfg = []")
    case True
    with o assms(4) sanitize_ends [OF assms(4)] show ?thesis by simp
  next
    case False
    with o assms(5) show ?thesis by simp
  qed
  have f: "track_file cfg n t \<noteq> [] \<and> hd (track_file cfg n t) \<noteq> CHR ''/''"
    using py_format_02d_hd [of n] by (simp add: track_file_def)
  have "path_join2 (output_path cfg) (track_file cfg n t)
      = output_path cfg @ ''/'' @ track_file cfg n t"
    using ne l f by (intro path_join2_plain) simp_all
  then show "output_filename cfg t =
     Some (save_path cfg @ ''/'' @ sanitize_filename (artist cfg) @ ''/''
             @ sanitize_filename (album cfg)
             @ (if disc_num cfg = [] then [] else ''/Disc '' @ disc_num cfg)
             @ ''/'' @ py_format_02d n @ ''. '' @ sanitize_filename (title t) @ ''.''
             @ py_lower (format cfg))"
    using assms(6) o by (simp add: output_filename_def os_path_join_def track_file_def)
  show "py_format_02d n = (if 0 \<le> n \<and> n < 10 then CHR ''0'' # dec (nat n) else py_str_int n)"
    by (rule py_format_02d_pad)
qed

theorem track_output_path_witness:
  "output_filename
     \<lparr>device = ''/dev/sr0'', format = ''FLAC'', save_path = ''/music'', artist = ''Foo/Bar'',
      album = ''Baz'', year = ''1999'', disc_num = '''', disc_total = '''', tracks = [],
      cover_art = NoPixmap\<rparr>
     \<lparr>number = ''1'', title = ''Title: One''\<rparr>
     = Some ''/music/FooBar/Baz/01. Title One.flac'' \<and>
   output_filename
     \<lparr>device = ''/dev/sr0'', format = ''OGG'', save_path = ''/music'', artist = ''Foo/Bar'',
      album = ''Baz'', year = ''1999'', disc_num = ''2'', disc_total = ''3'', tracks = [],
      cover_art = NoPixmap\<rparr>
     \<lparr>number = ''12'', title = ''Title: One''\<rparr>
     = Some ''/music/FooBar/Baz/Disc 2/12. Title One.ogg''"
proof -
  let ?t = "\<lparr>number = ''1'', title = ''Title: One''\<rparr>"
  let ?u = "\<lparr>number = ''12'', title = ''Title: One''\<rparr>"
  let ?c = "\<lparr>device = ''/dev/sr0'', format = ''FLAC'', save_path = ''/music'',
      artist = ''Foo/Bar'', album = ''Baz'', year = ''1999'', disc_num = '''', disc_total = '''',
      tracks = [], cover_art = NoPixmap\<rparr>"
  let ?d = "\<lparr>device = ''/dev/sr0'', format = ''OGG'', save_path = ''/music'',
      artist = ''Foo/Bar'', album = ''Baz'', year = ''1999'', disc_num = ''2'', disc_total = ''3'',
      tracks = [], cover_art = NoPixmap\<rparr>"
  have sa: "sanitize_filename ''Foo/Bar'' = ''FooBar''" by (simp add: path_eval)
  have sb: "sanitize_filename ''Baz'' = ''Baz''" by (simp add: path_eval)
  have st: "sanitize_filename ''Title: One'' = ''Title One''" by (simp add: path_eval)
  have lf: "py_lower ''FLAC'' = ''flac''" and lo: "py_lower ''OGG'' = ''ogg''"
    by (simp_all add: path_eval)
  have n1: "py_int ''1'' = Some 1" and n12: "py_int ''12'' = Some 12"
    by (simp_all add: path_eval)
  have p1: "py_format_02d 1 = ''01''" and p12: "py_format_02d 12 = ''12''"
    by (simp_all add: path_eval)
  have c1: "save_path ?c \<noteq> []" "last (save_path ?c) \<noteq> CHR ''/''"
    "sanitize_filename (artist ?c) \<noteq> []" "sanitize_filename (album ?c) \<noteq> []"
    "disc_num ?c = [] \<or> last (disc_num ?c) \<noteq> CHR ''/''" "py_int (number ?t) = Some 1"
    by (simp_all add: sa sb n1)
  have d1: "save_path ?d \<noteq> []" "last (save_path ?d) \<noteq> CHR ''/''"
    "sanitize_filename (artist ?d) \<noteq> []" "sanitize_filename (album ?d) \<noteq> []"
    "disc_num ?d = [] \<or> last (disc_num ?d) \<noteq> CHR ''/''" "py_int (number ?u) = Some 12"
    by (simp_all add: sa sb n12)
  have a: "output_filename ?c ?t = Some ''/music/FooBar/Baz/01. Title One.flac''"
    using track_output_path [OF c1, THEN conjunct1] by (simp add: sa sb st lf p1)
  have b: "output_filename ?d ?u = Some ''/music/FooBar/Baz/Disc 2/12. Title One.ogg''"
    using track_output_path [OF d1, THEN conjunct1] by (simp add: sa sb st lo p12)
  from a b show ?thesis by blast
qed

text \<open>
  The claim as the spec states it, for every job, fails on these three jobs, which pass
  the validation of \<open>start_rip\<close>. With an empty root the path is relative, where the
  stated layout begins with \<open>/\<close>; with a root that ends in \<open>/\<close> no second \<open>/\<close> is added; and
  an artist without any character that sanitizing keeps leaves no directory of its own.
\<close>

theorem output_path_counterexample:
  "output_filename
     \<lparr>device = ''/dev/sr0'', format = ''FLAC'', save_path = '''', artist = ''Foo/Bar'',
      album = ''Baz'', year = '''', disc_num = '''', disc_total = '''', tracks = [],
      cover_art = NoPixmap\<rparr>
     \<lparr>number = ''1'', title = ''Title: One''\<rparr>
     = Some ''FooBar/Baz/01. Title One.flac'' \<and>
   '''' @ ''/'' @ sanitize_filename ''Foo/Bar'' @ ''/'' @ sanitize_filename ''Baz'' @ ''/''
      @ py_format_02d 1 @ ''. '' @ sanitize_filename ''Title: One'' @ ''.'' @ py_lower ''FLAC''
     = ''/FooBar/Baz/01. Title One.flac'' \<and>
   output_filename
     \<lparr>device = ''/dev/sr0'', format = ''FLAC'', save_path = ''/music/'', artist = ''Foo/Bar'',
      album = ''Baz'', year = '''', disc_num = '''', disc_total = '''', tracks = [],
      cover_art = NoPixmap\<rparr>
     \<lparr>number = ''1'', title = ''Title: One''\<rparr>
     = Some ''/music/FooBar/Baz/01. Title One.flac'' \<and>
   ''/music/'' @ ''/'' @ sanitize_filename ''Foo/Bar'' @ ''/'' @ sanitize_filename ''Baz'' @ ''/''
      @ py_format_02d 1 @ ''. '' @ sanitize_filename ''Title: One'' @ ''.'' @ py_lower ''FLAC''
     = ''/music//FooBar/Baz/01. Title One.flac'' \<and>
   output_filename
     \<lparr>device = ''/dev/sr0'', format = ''FLAC'', save_path = ''/music'', artist = ''?!'',
      album = ''Baz'', year = '''', disc_num = '''', disc_total = '''', tracks = [],
      cover_art = NoPixmap\<rparr>
     \<lparr>number = ''1'', title = ''Title: One''\<rparr>
     = Some ''/music/Baz/01. Title One.flac'' \<and>
   ''/music'' @ ''/'' @ sanitize_filename ''?!'' @ ''/'' @ sanitize_filename ''Baz'' @ ''/''
      @ py_format_02d 1 @ ''. '' @ sanitize_filename ''Title: One'' @ ''.'' @ py_lower ''FLAC''
     = ''/music//Baz/01. Title One.flac''"
  by (simp add: path_eval)

section \<open>The encoder commands\<close>



end
